theory Spec2Isabelle
  imports Complex_Main "HOL-Library.Log_Nat" "HOL-Library.FSet"
begin

section \<open>JavaScript numbers and strings\<close>

text \<open>
  A JavaScript Number is an IEEE 754 binary64 value. The viewer only computes with small
  positive magnitudes (page counts, percentages, zoom factors, pixel coordinates), so a
  Number is modelled by the rational it denotes, and every arithmetic operation rounds its
  exact result to the nearest value with a 53-bit significand, ties to even. The exponent
  range is not bounded in the model: overflow, subnormals, NaN and the infinities do not
  occur for the magnitudes above.
\<close>

definition binade :: "rat \<Rightarrow> int" where
  \<comment> \<open>for \<open>0 < x\<close>: the exponent \<open>e\<close> with \<open>2^e \<le> x < 2^(e+1)\<close>\<close>
  "binade x = (let a = fst (quotient_of x); b = snd (quotient_of x); d = bitlen a - bitlen b
               in if 2 powi d \<le> x then d else d - 1)"

definition round_half_even :: "rat \<Rightarrow> int" where
  "round_half_even r = (let f = \<lfloor>r\<rfloor>; d = r - of_int f
     in if d < 1/2 then f else if 1/2 < d then f + 1 else if even f then f else f + 1)"

definition to_double :: "rat \<Rightarrow> rat" where
  "to_double x = (if x = 0 then 0 else
     let u = 2 powi (binade \<bar>x\<bar> - 52)
     in sgn x * of_int (round_half_even (\<bar>x\<bar> / u)) * u)"

definition js_add :: "rat \<Rightarrow> rat \<Rightarrow> rat" where
  "js_add a b = to_double (a + b)"

definition js_sub :: "rat \<Rightarrow> rat \<Rightarrow> rat" where
  "js_sub a b = to_double (a - b)"

definition js_mul :: "rat \<Rightarrow> rat \<Rightarrow> rat" where
  "js_mul a b = to_double (a * b)"

definition js_div :: "rat \<Rightarrow> rat \<Rightarrow> rat" where
  \<comment> \<open>only used with a non-zero divisor\<close>
  "js_div a b = to_double (a / b)"

definition Math_round :: "rat \<Rightarrow> int" where
  \<comment> \<open>\<open>Math.round\<close>: the nearest integer, a tie going up\<close>
  "Math_round v = \<lfloor>v + 1/2\<rfloor>"

text \<open>
  Strings are ASCII character lists. \<open>show_nat\<close> is the decimal rendering a template
  literal gives a non-negative integer.
\<close>

definition digit_char :: "nat \<Rightarrow> char" where
  "digit_char d = char_of (48 + d)"

fun show_nat :: "nat \<Rightarrow> string" where
  "show_nat n = (if n < 10 then [digit_char n] else show_nat (n div 10) @ [digit_char (n mod 10)])"

definition endsWith :: "string \<Rightarrow> string \<Rightarrow> bool" where
  "endsWith s suf = (length suf \<le> length s \<and> drop (length s - length suf) s = suf)"

definition is_space :: "char \<Rightarrow> bool" where
  "is_space c = (c = CHR '' '' \<or> (9 \<le> (of_char c :: nat) \<and> (of_char c :: nat) \<le> 13))"

definition trim :: "string \<Rightarrow> string" where
  "trim s = rev (dropWhile is_space (rev (dropWhile is_space s)))"

definition substring0 :: "nat \<Rightarrow> string \<Rightarrow> string" where
  \<comment> \<open>\<open>s.substring(0, k)\<close>\<close>
  "substring0 k s = take k s"

definition last_segment :: "string \<Rightarrow> string" where
  \<comment> \<open>\<open>s.split('/').pop()\<close>\<close>
  "last_segment s = rev (takeWhile (\<lambda>c. c \<noteq> CHR ''/'') (rev s))"

definition hex_digit :: "nat \<Rightarrow> char" where
  "hex_digit d = (if d < 10 then char_of (48 + d) else char_of (55 + d))"

definition uri_unreserved :: "char \<Rightarrow> bool" where
  "uri_unreserved c = (let k = (of_char c :: nat) in
     (65 \<le> k \<and> k \<le> 90) \<or> (97 \<le> k \<and> k \<le> 122) \<or> (48 \<le> k \<and> k \<le> 57) \<or>
     c \<in> set ''-_.!~*()'' \<or> k = 39)"

definition encodeURIComponent :: "string \<Rightarrow> string" where
  "encodeURIComponent s = concat (map (\<lambda>c. if uri_unreserved c then [c]
      else [CHR ''%'', hex_digit (of_char c div 16), hex_digit (of_char c mod 16)]) s)"

definition truthy :: "string option \<Rightarrow> bool" where
  \<comment> \<open>a string-valued property in a condition: absent and the empty string are falsy\<close>
  "truthy v = (case v of None \<Rightarrow> False | Some s \<Rightarrow> s \<noteq> [])"

section \<open>Zooming\<close>

text \<open>
  \<^verbatim>\<open>setScale(prevScale => Math.min(prevScale + 0.2, 3.0))\<close> and
  \<^verbatim>\<open>setScale(prevScale => Math.max(prevScale - 0.2, 0.5))\<close>; the scale starts at 1.0.
\<close>

definition zoomIn :: "rat \<Rightarrow> rat" where
  "zoomIn prevScale = min (js_add prevScale (to_double (2/10))) (to_double 3)"

definition zoomOut :: "rat \<Rightarrow> rat" where
  "zoomOut prevScale = max (js_sub prevScale (to_double (2/10))) (to_double (5/10))"

datatype zoom_op = ZoomIn | ZoomOut

fun apply_zoom :: "zoom_op \<Rightarrow> rat \<Rightarrow> rat" where
  "apply_zoom ZoomIn s = zoomIn s"
| "apply_zoom ZoomOut s = zoomOut s"

definition initial_scale :: rat where
  "initial_scale = to_double 1"

definition scale_after :: "zoom_op list \<Rightarrow> rat" where
  "scale_after ops = fold apply_zoom ops initial_scale"

section \<open>PDF page preloading\<close>

text \<open>
  The part of the \<open>PdfViewer\<close> state that the preloading handlers read or write. The two
  refs \<open>pageLoadStartTime\<close> and \<open>pageLoadPromises\<close> are fields too; of the map from page
  number to promise resolver only the key set matters. Every call of \<open>preloadAllPages\<close>
  awaits a \<open>Promise.race\<close> of its own: the calls are numbered, \<open>preloadRun\<close> is the
  number of the latest call, whose resolvers the ref holds, and \<open>settledRuns\<close> lists the
  calls whose race has settled. \<open>pdfTimers\<close> holds the callbacks passed to \<open>setTimeout\<close>
  that have not run yet, with their delays; no timer is ever cleared.
  \<open>Date.now()\<close> is an argument of each handler.
  A handler reads the state of the moment it runs, and the updates it requests take effect
  together.
\<close>

record cache_entry =
  loaded :: bool
  timestamp :: nat
  renderTime :: int

record loading_stats =
  startTime :: "nat option"
  pagesLoaded :: nat
  totalPages :: nat

text \<open>The template literals given to \<open>setLoadingMessage\<close>, with the values they interpolate.\<close>

datatype loading_message =
    MsgEmpty                        \<comment> \<open>\<^verbatim>\<open>''\<close>\<close>
  | MsgLoadingDocument              \<comment> \<open>\<^verbatim>\<open>'Loading PDF document...'\<close>\<close>
  | MsgRenderingTotal nat           \<comment> \<open>\<^verbatim>\<open>`Rendering ${totalPages} pages...`\<close>\<close>
  | MsgRenderingPages nat nat int   \<comment> \<open>\<^verbatim>\<open>`Rendering pages... ${newSet.size}/${numPages} (${progress}%)`\<close>\<close>
  | MsgAllPagesReady int            \<comment> \<open>\<^verbatim>\<open>`All pages ready! (${(loadTime/1000).toFixed(1)}s total)`\<close>\<close>
  | MsgLoadedPartial nat nat        \<comment> \<open>\<^verbatim>\<open>`Loaded ${currentLoaded}/${totalPages} pages. Others will load as needed.`\<close>\<close>
  | MsgLoadingError                 \<comment> \<open>\<^verbatim>\<open>'Loading error. Some pages may load slower.'\<close>\<close>
  | MsgSkipped                      \<comment> \<open>\<^verbatim>\<open>'Preloading skipped. Pages will load as needed.'\<close>\<close>

datatype pdf_callback =
    CompleteLoading int             \<comment> \<open>the 200 ms callback of \<open>handlePageLoadSuccess\<close>, with its \<open>loadTime\<close>\<close>
  | ClearLoadingMessage             \<comment> \<open>\<^verbatim>\<open>() => setLoadingMessage('')\<close>\<close>
  | PreloadTimeout nat nat nat      \<comment> \<open>the 45 s rejection in \<open>preloadAllPages\<close>: the number of
                                        the call, and the \<open>loadedPages.size\<close> and
                                        \<open>totalPages\<close> of its closure\<close>

type_synonym pdf_timer = "nat \<times> pdf_callback"

record pdf_state =
  file' :: "string option"   \<comment> \<open>the state variable \<open>file\<close>, by the name of the selected file\<close>
  numPages :: "nat option"
  isLoadingPdf :: bool
  loadingProgress :: int
  loadedPages :: "nat fset"
  pageCache :: "nat \<Rightarrow> cache_entry option"
  loadingMessage :: loading_message
  loadingStats :: loading_stats
  pageLoadStartTime :: "nat option"
  pageLoadPromises :: "nat fset"
  preloadRun :: nat
  settledRuns :: "nat fset"
  pdfTimers :: "pdf_timer list"

definition initial_pdf_state :: pdf_state where
  "initial_pdf_state = \<lparr> file' = None, numPages = None, isLoadingPdf = False,
     loadingProgress = 0, loadedPages = {||}, pageCache = Map.empty, loadingMessage = MsgEmpty,
     loadingStats = \<lparr> startTime = None, pagesLoaded = 0, totalPages = 0 \<rparr>,
     pageLoadStartTime = None, pageLoadPromises = {||}, preloadRun = 0,
     settledRuns = {||},
     pdfTimers = [] \<rparr>"

definition handleFileChange :: "string \<Rightarrow> bool \<Rightarrow> pdf_state \<Rightarrow> pdf_state" where
  \<comment> \<open>\<open>isPdf\<close>: \<^verbatim>\<open>selectedFile.type === 'application/pdf'\<close>\<close>
  "handleFileChange selectedFile isPdf s =
     (if isPdf then s\<lparr> isLoadingPdf := True, loadingProgress := 0, loadedPages := {||},
                        pageCache := Map.empty, loadingMessage := MsgLoadingDocument,
                        file' := Some selectedFile \<rparr>
      else s)"

definition load_start :: "nat \<Rightarrow> pdf_state \<Rightarrow> nat" where
  \<comment> \<open>\<^verbatim>\<open>pageLoadStartTime.current || Date.now()\<close>\<close>
  "load_start now s = (case pageLoadStartTime s of None \<Rightarrow> now
                        | Some t \<Rightarrow> if t = 0 then now else t)"

definition handlePageLoadSuccess :: "nat \<Rightarrow> nat \<Rightarrow> pdf_state \<Rightarrow> pdf_state" where
  "handlePageLoadSuccess pageNumber now s =
    (let newSet = finsert pageNumber (loadedPages s);
         s1 = s\<lparr> loadedPages := newSet \<rparr>;
         s2 = (case numPages s of
                 None \<Rightarrow> s1
               | Some n \<Rightarrow>
                   if isLoadingPdf s \<and> n \<noteq> 0 then
                     let progress = Math_round (js_mul (js_div (of_nat (fcard newSet)) (of_nat n)) 100);
                         s' = s1\<lparr> loadingProgress := progress,
                                  loadingMessage := MsgRenderingPages (fcard newSet) n progress,
                                  loadingStats := (loadingStats s)\<lparr> pagesLoaded := fcard newSet \<rparr> \<rparr>
                     in if fcard newSet = n
                        then s'\<lparr> pdfTimers := pdfTimers s @
                                  [(200, CompleteLoading (int now - int (load_start now s)))] \<rparr>
                        else s'
                   else s1);
         s3 = s2\<lparr> pageCache := (pageCache s)(pageNumber \<mapsto>
                  \<lparr> loaded = True, timestamp = now,
                    renderTime = int now - int (load_start now s) \<rparr>) \<rparr>
     in if pageNumber |\<in>| pageLoadPromises s
        then s3\<lparr> pageLoadPromises := pageLoadPromises s |-| {|pageNumber|},
                 settledRuns := (if pageLoadPromises s |-| {|pageNumber|} = {||}
                                 then finsert (preloadRun s) (settledRuns s)
                                 else settledRuns s) \<rparr>
        else s3)"

text \<open>
  The two callbacks each \<open>Page\<close> element is given:
  \<^verbatim>\<open>onLoadSuccess={() => handlePageLoadSuccess(pageNum)}\<close> and
  \<^verbatim>\<open>onLoadError={(error) => { console.error(...); handlePageLoadSuccess(pageNum); }}\<close>.
\<close>

definition page_onLoadSuccess :: "nat \<Rightarrow> nat \<Rightarrow> pdf_state \<Rightarrow> pdf_state" where
  "page_onLoadSuccess pageNum now s = handlePageLoadSuccess pageNum now s"

definition page_onLoadError :: "nat \<Rightarrow> string \<Rightarrow> nat \<Rightarrow> pdf_state \<Rightarrow> pdf_state" where
  "page_onLoadError pageNum err now s = handlePageLoadSuccess pageNum now s"

definition all_pages :: "nat \<Rightarrow> nat fset" where
  \<comment> \<open>the page numbers \<open>1 .. n\<close>, as the loops over \<open>pageNum\<close> run through them\<close>
  "all_pages n = fset_of_list [1..<Suc n]"

definition preloadAllPages :: "nat \<Rightarrow> nat \<Rightarrow> pdf_state \<Rightarrow> pdf_state" where
  \<comment> \<open>up to its \<open>await\<close>; the closure's \<open>loadedPages\<close> is the one of the calling render\<close>
  "preloadAllPages nTotal now s =
     s\<lparr> pageLoadStartTime := Some now, isLoadingPdf := True, loadingProgress := 0,
        loadingMessage := MsgRenderingTotal nTotal,
        loadingStats := \<lparr> startTime = Some now, pagesLoaded = 0, totalPages = nTotal \<rparr>,
        loadedPages := {||}, pageCache := Map.empty,
        pageLoadPromises := all_pages nTotal,
        preloadRun := Suc (preloadRun s),
        settledRuns := (if nTotal = 0 then finsert (Suc (preloadRun s)) (settledRuns s)
                        else settledRuns s),
        pdfTimers := pdfTimers s @
          [(45000, PreloadTimeout (Suc (preloadRun s)) (fcard (loadedPages s)) nTotal)] \<rparr>"

definition preloadAllPages_catch ::
  "nat \<Rightarrow> bool \<Rightarrow> nat \<Rightarrow> nat \<Rightarrow> pdf_state \<Rightarrow> pdf_state" where
  \<comment> \<open>a rejection reaches the race awaited by call \<open>run\<close>: the \<open>catch\<close> block of that call
      runs unless its race had settled before;
      \<open>isTimeout\<close>: \<^verbatim>\<open>error.message === 'Page loading timeout'\<close>\<close>
  "preloadAllPages_catch run isTimeout currentLoaded nTotal s =
     (if run |\<in>| settledRuns s then s
      else s\<lparr> settledRuns := finsert run (settledRuns s), isLoadingPdf := False,
              loadingMessage := (if isTimeout then MsgLoadedPartial currentLoaded nTotal
                                 else MsgLoadingError),
              pdfTimers := pdfTimers s @ [(4000, ClearLoadingMessage)] \<rparr>)"

definition onDocumentLoadSuccess :: "nat \<Rightarrow> nat \<Rightarrow> pdf_state \<Rightarrow> pdf_state" where
  \<comment> \<open>\<open>setNumPages(numPages)\<close>, then \<open>preloadAllPages(numPages)\<close>; the error and warning
      banners it also resets are not part of \<open>pdf_state\<close>\<close>
  "onDocumentLoadSuccess n now s = preloadAllPages n now (s\<lparr> numPages := Some n \<rparr>)"

definition skipLoading :: "pdf_state \<Rightarrow> pdf_state" where
  \<comment> \<open>the button "Skip & View Now"\<close>
  "skipLoading s = s\<lparr> isLoadingPdf := False, loadingMessage := MsgSkipped,
                       pdfTimers := pdfTimers s @ [(2000, ClearLoadingMessage)] \<rparr>"

definition cancelLoading :: "pdf_state \<Rightarrow> pdf_state" where
  \<comment> \<open>the button "Cancel" of the loading overlay\<close>
  "cancelLoading s = s\<lparr> isLoadingPdf := False, loadingMessage := MsgEmpty, file' := None,
                         numPages := Some 0, loadedPages := {||} \<rparr>"

fun run_pdf_callback :: "pdf_callback \<Rightarrow> pdf_state \<Rightarrow> pdf_state" where
  "run_pdf_callback (CompleteLoading loadTime) s =
     s\<lparr> isLoadingPdf := False, loadingMessage := MsgAllPagesReady loadTime,
        pdfTimers := pdfTimers s @ [(2500, ClearLoadingMessage)] \<rparr>"
| "run_pdf_callback ClearLoadingMessage s = s\<lparr> loadingMessage := MsgEmpty \<rparr>"
| "run_pdf_callback (PreloadTimeout run currentLoaded nTotal) s =
     preloadAllPages_catch run True currentLoaded nTotal s"

definition fire_pdf_timer :: "pdf_timer \<Rightarrow> pdf_state \<Rightarrow> pdf_state" where
  \<comment> \<open>a pending timer expires: it leaves the pending list and its callback runs\<close>
  "fire_pdf_timer t s =
     (if t \<in> set (pdfTimers s)
      then run_pdf_callback (snd t) (s\<lparr> pdfTimers := remove1 t (pdfTimers s) \<rparr>)
      else s)"

text \<open>What can happen to the viewer while a document is being preloaded.\<close>

datatype pdf_event =
    PageLoadSuccess nat nat         \<comment> \<open>page number, \<open>Date.now()\<close>\<close>
  | PageLoadError nat string nat
  | TimerFires pdf_timer
  | SkipClicked
  | CancelClicked
  | PreloadError nat nat nat        \<comment> \<open>the race awaited by a call rejects for another reason
                                        than the timeout\<close>

fun pdf_step :: "pdf_event \<Rightarrow> pdf_state \<Rightarrow> pdf_state" where
  "pdf_step (PageLoadSuccess p now) s = page_onLoadSuccess p now s"
| "pdf_step (PageLoadError p err now) s = page_onLoadError p err now s"
| "pdf_step (TimerFires t) s = fire_pdf_timer t s"
| "pdf_step SkipClicked s = skipLoading s"
| "pdf_step CancelClicked s = cancelLoading s"
| "pdf_step (PreloadError run currentLoaded nTotal) s =
     preloadAllPages_catch run False currentLoaded nTotal s"

definition pdf_run :: "pdf_event list \<Rightarrow> pdf_state \<Rightarrow> pdf_state" where
  "pdf_run es s = fold pdf_step es s"

definition render_pages :: "nat list \<Rightarrow> nat \<Rightarrow> pdf_event list" where
  \<comment> \<open>the pages \<open>ps\<close> render successfully, in this order\<close>
  "render_pages ps now = map (\<lambda>p. PageLoadSuccess p now) ps"

fun page_of :: "pdf_event \<Rightarrow> nat option" where
  "page_of (PageLoadSuccess p now) = Some p"
| "page_of (PageLoadError p err now) = Some p"
| "page_of e = None"

definition pages_valid :: "nat \<Rightarrow> pdf_event list \<Rightarrow> bool" where
  \<comment> \<open>every notification is for one of the pages \<open>1 .. n\<close> that are rendered\<close>
  "pages_valid n es = list_all (\<lambda>e. case page_of e of None \<Rightarrow> True | Some p \<Rightarrow> p |\<in>| all_pages n) es"





text \<open>
  Sample states: a document of three pages is opened, its first page renders and the user
  presses Cancel; and a document of one page is opened and its page renders.
\<close>

definition earlier_run_cancelled :: pdf_state where
  "earlier_run_cancelled =
     cancelLoading (pdf_run (render_pages [1] 1100) (onDocumentLoadSuccess 3 1000 initial_pdf_state))"

definition earlier_run_settled :: pdf_state where
  "earlier_run_settled =
     pdf_run (render_pages [1] 1100) (onDocumentLoadSuccess 1 1000 initial_pdf_state)"

section \<open>The API client\<close>

text \<open>
  What \<open>fetch\<close> and \<open>response.json()\<close> can do is an input of each function: the request
  is rejected, or a response arrives with its \<open>ok\<close> flag, its status code and the outcome of
  parsing its body. A parsed body is the JSON value \<open>null\<close> or some other value.
\<close>

datatype js_error = JsError string string    \<comment> \<open>\<open>name\<close> and \<open>message\<close> of the thrown object\<close>

fun error_text :: "js_error \<Rightarrow> string" where
  "error_text (JsError name msg) = msg"

datatype 'a json_body = JsonNull | JsonValue 'a

datatype 'a fetch_outcome =
    FetchRejected js_error
  | FetchResponse bool nat "js_error + 'a json_body"

definition API_BASE_URL :: string where
  "API_BASE_URL = ''http://localhost:5000/api''"

definition generateVideo :: "'a fetch_outcome \<Rightarrow> js_error + 'a json_body" where
  "generateVideo outcome =
     (case outcome of
        FetchRejected e \<Rightarrow> Inl e
      | FetchResponse ok code parsed \<Rightarrow>
          if \<not> ok then Inl (JsError ''Error'' (''HTTP error! status: '' @ show_nat code))
          else (case parsed of Inl e \<Rightarrow> Inl e | Inr data \<Rightarrow> Inr data))"

definition checkStatus :: "string \<Rightarrow> 'a fetch_outcome \<Rightarrow> js_error + 'a json_body" where
  "checkStatus taskId outcome =
     (let statusUrl = API_BASE_URL @ ''/video-status/'' @ taskId in
      case outcome of
        FetchRejected e \<Rightarrow> Inl e
      | FetchResponse ok code parsed \<Rightarrow>
          if \<not> ok then Inl (JsError ''Error''
                 (''HTTP error! status: '' @ show_nat code @ '' for URL: '' @ statusUrl))
          else (case parsed of Inl e \<Rightarrow> Inl e | Inr data \<Rightarrow> Inr data))"

definition extractContent :: "'a fetch_outcome \<Rightarrow> js_error + 'a json_body" where
  \<comment> \<open>after parsing, the function logs \<open>data.success\<close>, \<open>data.latex\<close>, \<open>data.confidence\<close> and
      \<open>data.message\<close>; reading a property of \<open>null\<close> throws a TypeError (the text of its
      message depends on the engine), which the \<open>catch\<close> block logs and rethrows\<close>
  "extractContent outcome =
     (case outcome of
        FetchRejected e \<Rightarrow> Inl e
      | FetchResponse ok code parsed \<Rightarrow>
          if \<not> ok then Inl (JsError ''Error'' (''HTTP error! status: '' @ show_nat code))
          else (case parsed of
                  Inl e \<Rightarrow> Inl e
                | Inr JsonNull \<Rightarrow>
                    Inl (JsError ''TypeError'' ''Cannot read properties of null (reading success)'')
                | Inr (JsonValue v) \<Rightarrow> Inr (JsonValue v)))"

section \<open>Video generation and its polling loop\<close>

record generate_response =
  task_id :: string

record status_response =
  status :: "string option"
  progress :: "rat option"
  message :: "string option"
  video_url :: "string option"
  video_path :: "string option"

record explanation_data =
  explanation :: "string option"
  topic :: "string option"

datatype gen_callback =
  PollGenerationStatus string string
    \<comment> \<open>\<^verbatim>\<open>() => pollGenerationStatus(taskId)\<close>, with the \<open>taskId\<close> and the \<open>selectedText\<close> of its closure\<close>

type_synonym gen_timer = "nat \<times> gen_callback"

text \<open>
  The generation part of the state. \<open>alerts\<close> lists the texts shown by \<open>alert\<close>,
  \<open>statusChecks\<close> the task ids for which a status request has been sent, and \<open>genTimers\<close>
  the pending \<open>setTimeout\<close> callbacks.
\<close>

record gen_state =
  selectedText :: string
  isGenerating :: bool
  generationProgress :: rat
  generationMessage :: string
  currentTaskId :: "string option"
  showVideoPlayer :: bool
  currentVideoUrl :: string
  currentVideoTitle :: string
  showExplanationViewer :: bool
  currentExplanation :: "string option"
  currentExplanationTitle :: "string option"
  alerts :: "string list"
  statusChecks :: "string list"
  genTimers :: "gen_timer list"

definition initial_gen_state :: gen_state where
  "initial_gen_state = \<lparr> selectedText = [], isGenerating = False, generationProgress = 0,
     generationMessage = [], currentTaskId = None, showVideoPlayer = False,
     currentVideoUrl = [], currentVideoTitle = [], showExplanationViewer = False,
     currentExplanation = Some [], currentExplanationTitle = Some [], alerts = [],
     statusChecks = [], genTimers = [] \<rparr>"

definition ends_mp4 :: "string option \<Rightarrow> bool" where
  \<comment> \<open>\<^verbatim>\<open>v && v.endsWith('.mp4')\<close>\<close>
  "ends_mp4 v = (case v of None \<Rightarrow> False | Some p \<Rightarrow> p \<noteq> [] \<and> endsWith p ''.mp4'')"

definition ends_json :: "string option \<Rightarrow> bool" where
  \<comment> \<open>\<^verbatim>\<open>v && v.endsWith('.json')\<close>\<close>
  "ends_json v = (case v of None \<Rightarrow> False | Some p \<Rightarrow> p \<noteq> [] \<and> endsWith p ''.json'')"

definition pathPart :: "status_response \<Rightarrow> string" where
  \<comment> \<open>\<^verbatim>\<open>status.video_url ? status.video_url : `/api/videos/${encodeURIComponent(status.video_path.split('/').pop())}`\<close>;
      only evaluated when one of the two is truthy\<close>
  "pathPart st =
     (if truthy (video_url st) then the (video_url st)
      else ''/api/videos/'' @ encodeURIComponent (last_segment (the (video_path st))))"

definition fetch_json :: "'a fetch_outcome \<Rightarrow> 'a option" where
  \<comment> \<open>\<^verbatim>\<open>const response = await fetch(url); const data = await response.json();\<close> followed by
      reads of properties of \<open>data\<close>, inside a \<open>try\<close>: \<open>None\<close> when one of the steps throws.
      The \<open>ok\<close> flag is not looked at\<close>
  "fetch_json outcome =
     (case outcome of
        FetchRejected e \<Rightarrow> None
      | FetchResponse ok code parsed \<Rightarrow>
          (case parsed of Inl e \<Rightarrow> None | Inr JsonNull \<Rightarrow> None | Inr (JsonValue d) \<Rightarrow> Some d))"

definition pollGenerationStatus ::
  "string \<Rightarrow> string \<Rightarrow> status_response fetch_outcome \<Rightarrow> explanation_data fetch_outcome
     \<Rightarrow> gen_state \<Rightarrow> gen_state" where
  \<comment> \<open>\<open>selText\<close> is the \<open>selectedText\<close> of the closure; \<open>outcome\<close> is what the status request
      does and \<open>explOutcome\<close> what the request for the explanation file does, if it is sent\<close>
  "pollGenerationStatus taskId selText outcome explOutcome s =
    (let s0 = s\<lparr> statusChecks := statusChecks s @ [taskId] \<rparr>;
         failed = s0\<lparr> isGenerating := False,
                       alerts := alerts s0 @ [''Error checking generation status''] \<rparr>
     in case checkStatus taskId outcome of
          Inl e \<Rightarrow> failed
        | Inr JsonNull \<Rightarrow> failed
        | Inr (JsonValue st) \<Rightarrow>
           (let s1 = s0\<lparr> generationProgress :=
                           (case progress st of None \<Rightarrow> 0 | Some v \<Rightarrow> v),
                         generationMessage :=
                           (if truthy (message st) then the (message st) else ''Processing...'') \<rparr>
            in if status st = Some ''completed'' \<and> (truthy (video_url st) \<or> truthy (video_path st))
               then
                 (let s2 = s1\<lparr> isGenerating := False \<rparr>;
                      s3 = (if ends_mp4 (video_url st) \<or> ends_mp4 (video_path st)
                            then s2\<lparr> currentVideoUrl := ''http://localhost:5000'' @ pathPart st,
                                     currentVideoTitle := substring0 50 selText @
                                        (if length selText > 50 then ''...'' else []),
                                     showVideoPlayer := True \<rparr>
                            else if ends_json (video_path st)
                            then (case fetch_json explOutcome of
                                    Some d \<Rightarrow>
                                      s2\<lparr> currentExplanation := explanation d,
                                          currentExplanationTitle := topic d,
                                          showExplanationViewer := True \<rparr>
                                  | None \<Rightarrow>
                                      s2\<lparr> alerts := alerts s2 @ [''Error loading explanation''] \<rparr>)
                            else s2)
                  in s3\<lparr> selectedText := [] \<rparr>)
               else if status st = Some ''failed''
               then s1\<lparr> isGenerating := False,
                        alerts := alerts s1 @ [''Generation failed: '' @
                           (case message st of None \<Rightarrow> ''undefined'' | Some m \<Rightarrow> m)] \<rparr>
               else if status st = Some ''generating''
               then s1\<lparr> genTimers := genTimers s1 @ [(2000, PollGenerationStatus taskId selText)] \<rparr>
               else s1\<lparr> isGenerating := False,
                        alerts := alerts s1 @ [''Unknown error occurred during generation''] \<rparr>))"

definition handleVisualize ::
  "generate_response fetch_outcome \<Rightarrow> status_response fetch_outcome
     \<Rightarrow> explanation_data fetch_outcome \<Rightarrow> gen_state \<Rightarrow> gen_state" where
  \<comment> \<open>the first poll follows the answer of \<open>generateVideo\<close> at once\<close>
  "handleVisualize genOutcome outcome explOutcome s =
    (if trim (selectedText s) = [] then s
     else
       let s1 = s\<lparr> isGenerating := True, generationProgress := 0,
                    generationMessage := ''Initializing video generation...'' \<rparr>
       in case generateVideo genOutcome of
            Inr (JsonValue r) \<Rightarrow>
              pollGenerationStatus (task_id r) (selectedText s) outcome explOutcome
                (s1\<lparr> currentTaskId := Some (task_id r) \<rparr>)
          | _ \<Rightarrow> s1\<lparr> isGenerating := False,
                     generationMessage := ''Failed to start video generation'',
                     alerts := alerts s1 @
                       [''Failed to start video generation. Please make sure the backend is running.''] \<rparr>)"



text \<open>Sample answers of the backend and a generation that has been started with them.\<close>

definition response_generating :: "status_response fetch_outcome" where
  "response_generating = FetchResponse True 200 (Inr (JsonValue
     \<lparr> status = Some ''generating'', progress = Some 40, message = Some ''Rendering scene'',
       video_url = None, video_path = None \<rparr>))"

definition response_completed_mp4 :: "status_response fetch_outcome" where
  "response_completed_mp4 = FetchResponse True 200 (Inr (JsonValue
     \<lparr> status = Some ''completed'', progress = Some 100, message = Some ''Done'',
       video_url = Some ''/api/videos/scene.mp4'', video_path = None \<rparr>))"

definition response_completed_json_path :: "status_response fetch_outcome" where
  "response_completed_json_path = FetchResponse True 200 (Inr (JsonValue
     \<lparr> status = Some ''completed'', progress = Some 100, message = Some ''Done'',
       video_url = None, video_path = Some ''media/explanation.json'' \<rparr>))"

definition response_not_found :: "status_response fetch_outcome" where
  \<comment> \<open>the backend does not know the task: status 404, the body is not read\<close>
  "response_not_found = FetchResponse False 404 (Inr (JsonValue
     \<lparr> status = None, progress = None, message = None, video_url = None, video_path = None \<rparr>))"

definition explanation_ok :: "explanation_data fetch_outcome" where
  "explanation_ok = FetchResponse True 200 (Inr (JsonValue
     \<lparr> explanation = Some ''The square of x grows quadratically.'', topic = Some ''Squares'' \<rparr>))"

definition explanation_unreachable :: "explanation_data fetch_outcome" where
  "explanation_unreachable = FetchRejected (JsError ''TypeError'' ''Failed to fetch'')"

definition started_generation :: gen_state where
  \<comment> \<open>the user selects the text \<open>x^2\<close> and asks for a visualization; the backend opens
      task \<open>t1\<close> and the first poll finds it generating\<close>
  "started_generation =
     handleVisualize (FetchResponse True 200 (Inr (JsonValue \<lparr> task_id = ''t1'' \<rparr>)))
       response_generating explanation_unreachable
       (initial_gen_state\<lparr> selectedText := ''x^2'' \<rparr>)"

section \<open>OCR extraction\<close>

record rect =
  rect_x :: rat
  rect_y :: rat
  rect_width :: rat
  rect_height :: rat

record selection_data =
  imageData :: "string option"
  coordinates :: "rect option"
  selectionRect :: "rect option"

text \<open>
  An element of \<open>results.formulas\<close> is a string or an object with the properties
  \<open>latex\<close>, \<open>confidence\<close> and \<open>type\<close>; \<open>performOcrExtraction\<close> tells them apart
  with \<open>typeof\<close>.
\<close>

datatype formula =
    FormulaString string
  | FormulaObject "string option" "rat option" "string option"

record ocr_response =
  success :: bool
  response_error :: "string option"          \<comment> \<open>the property \<open>error\<close>\<close>
  formulas :: "formula list option"
  latex :: "string option"
  confidence :: "rat option"
  raw_result :: "string option"

record ocr_result =
  result_id :: string                          \<comment> \<open>the property \<open>id\<close>\<close>
  latexContent :: "string option"
  position :: "rat \<times> rat"
  viewportPosition :: "rat \<times> rat"
  result_coordinates :: "rect option"
  result_selectionRect :: "rect option"
  result_confidence :: "rat option"
  result_type :: "string option"

record latest_result =
  latest_latex :: formula
  latest_timestamp :: string
  latest_confidence :: "rat option"
  rawResult :: "string option"

record error_info =
  error_message :: string                      \<comment> \<open>the property \<open>message\<close>\<close>
  suggestions :: "string list"

record ocr_state =
  ocrMode :: bool
  ocrResults :: "ocr_result list"
  ocrLoading :: bool
  showOcrPanel :: bool
  ocrPanelMinimized :: bool
  latestOcrResult :: "latest_result option"
  error :: "error_info option"

definition initial_ocr_state :: ocr_state where
  "initial_ocr_state = \<lparr> ocrMode = False, ocrResults = [], ocrLoading = False,
     showOcrPanel = False, ocrPanelMinimized = False, latestOcrResult = None, error = None \<rparr>"

definition hasFormulas :: "ocr_response \<Rightarrow> bool" where
  \<comment> \<open>\<^verbatim>\<open>results.formulas && results.formulas.length > 0\<close>\<close>
  "hasFormulas r = (case formulas r of None \<Rightarrow> False | Some fs \<Rightarrow> length fs > 0)"

definition hasLatex :: "ocr_response \<Rightarrow> bool" where
  \<comment> \<open>\<^verbatim>\<open>results.latex && results.latex.trim().length > 0\<close>\<close>
  "hasLatex r = (case latex r of None \<Rightarrow> False | Some l \<Rightarrow> l \<noteq> [] \<and> length (trim l) > 0)"

definition formulasArray :: "ocr_response \<Rightarrow> formula list" where
  \<comment> \<open>\<^verbatim>\<open>hasFormulas ? results.formulas : (hasLatex ? [results.latex] : [])\<close>\<close>
  "formulasArray r = (if hasFormulas r then the (formulas r)
                      else if hasLatex r then [FormulaString (the (latex r))] else [])"

definition or_zero_rect :: "rect option \<Rightarrow> rect" where
  \<comment> \<open>\<^verbatim>\<open>selectionData.selectionRect || { x: 0, y: 0, width: 0, height: 0 }\<close>\<close>
  "or_zero_rect v = (case v of Some r \<Rightarrow> r
      | None \<Rightarrow> \<lparr> rect_x = 0, rect_y = 0, rect_width = 0, rect_height = 0 \<rparr>)"

definition selection_center :: "(rat \<times> rat) option \<Rightarrow> selection_data \<Rightarrow> rat \<times> rat" where
  \<comment> \<open>\<open>centerX\<close> and \<open>centerY\<close>; \<open>containerRect\<close> holds \<open>left\<close> and \<open>top\<close> of the container's
      bounding rectangle, \<open>None\<close> when \<open>containerRef.current\<close> is null. Nothing in the
      \<open>try\<close> block that computes them throws, so its \<open>catch\<close> block is not modelled\<close>
  "selection_center containerRect sel =
     (let (left, top) = (case containerRect of Some lt \<Rightarrow> lt | None \<Rightarrow> (0, 0));
          r = or_zero_rect (selectionRect sel)
      in (js_add (js_sub (rect_x r) left) (js_div (rect_width r) 2),
          js_add (js_sub (rect_y r) top) (js_div (rect_height r) 2)))"

definition make_ocr_result ::
  "(nat \<Rightarrow> nat) \<Rightarrow> rat \<times> rat \<Rightarrow> selection_data \<Rightarrow> nat \<Rightarrow> formula \<Rightarrow> ocr_result" where
  \<comment> \<open>the function mapped over \<open>formulasArray\<close>; \<open>nowAt i\<close> is \<open>Date.now()\<close> when element
      \<open>i\<close> is built\<close>
  "make_ocr_result nowAt center sel i f =
     \<lparr> result_id = ''ocr-'' @ show_nat (nowAt i) @ ''-'' @ show_nat i,
       latexContent = (case f of FormulaString t \<Rightarrow> Some t | FormulaObject l c ty \<Rightarrow> l),
       position = (js_add (fst center) (js_mul (of_nat i) 20),
                   js_add (snd center) (js_mul (of_nat i) 20)),
       viewportPosition =
         (let r = or_zero_rect (selectionRect sel)
          in (js_add (rect_x r) (js_div (rect_width r) 2),
              js_add (rect_y r) (js_div (rect_height r) 2))),
       result_coordinates = coordinates sel,
       result_selectionRect = selectionRect sel,
       result_confidence = (case f of FormulaString t \<Rightarrow> None | FormulaObject l c ty \<Rightarrow> c),
       result_type = (case f of FormulaString t \<Rightarrow> None | FormulaObject l c ty \<Rightarrow> ty) \<rparr>"

definition newOcrResults ::
  "(nat \<Rightarrow> nat) \<Rightarrow> rat \<times> rat \<Rightarrow> selection_data \<Rightarrow> formula list \<Rightarrow> ocr_result list" where
  "newOcrResults nowAt center sel fs =
     map (\<lambda>(i, f). make_ocr_result nowAt center sel i f) (enumerate 0 fs)"

definition ocr_catch :: "js_error \<Rightarrow> ocr_state \<Rightarrow> ocr_state" where
  \<comment> \<open>the \<open>catch\<close> block of \<open>performOcrExtraction\<close>\<close>
  "ocr_catch e s =
     s\<lparr> error := Some \<lparr> error_message = ''OCR Processing Error'',
            suggestions = [if error_text e \<noteq> [] then error_text e
                           else ''Failed to communicate with OCR service'',
                           ''Check that the backend is running'',
                           ''Try again with a different selection''] \<rparr> \<rparr>"

definition performOcrExtraction_resume ::
  "selection_data \<Rightarrow> (rat \<times> rat) option \<Rightarrow> (nat \<Rightarrow> nat) \<Rightarrow> string
     \<Rightarrow> js_error + ocr_response json_body \<Rightarrow> ocr_state \<Rightarrow> ocr_state" where
  \<comment> \<open>from the point where \<open>await ocrAPI.extractContent(...)\<close> settles with \<open>answer\<close>, in the
      state \<open>s\<close> of that moment, to the end of the \<open>finally\<close> block. \<open>timeText\<close> is what
      \<open>new Date().toLocaleTimeString()\<close> gives\<close>
  "performOcrExtraction_resume sel containerRect nowAt timeText answer s =
    (let s' =
       (case answer of
          Inl e \<Rightarrow> ocr_catch e s
        | Inr JsonNull \<Rightarrow>
            ocr_catch (JsError ''TypeError'' ''Cannot read properties of null (reading success)'') s
        | Inr (JsonValue results) \<Rightarrow>
            if \<not> success results then
              s\<lparr> error := Some \<lparr> error_message = ''OCR Extraction Failed'',
                     suggestions = [if truthy (response_error results)
                                    then the (response_error results)
                                    else ''Unknown error occurred'',
                                    ''Try selecting a clearer area'',
                                    ''Ensure the image contains mathematical content''] \<rparr>,
                 ocrLoading := False \<rparr>
            else if \<not> hasFormulas results \<and> \<not> hasLatex results then
              s\<lparr> error := Some \<lparr> error_message = ''No Mathematical Content Detected'',
                     suggestions = [''The selected area may not contain clear mathematical notation'',
                                    ''Try selecting a different area with equations or formulas'',
                                    ''Ensure the image is not too blurry or small''] \<rparr>,
                 ocrLoading := False \<rparr>
            else
              (case formulasArray results of
                 [] \<Rightarrow> s
               | FormulaObject l c ty # rest \<Rightarrow>
                   \<comment> \<open>the log entry evaluates \<^verbatim>\<open>formulasArray[0]?.substring(0, 100)\<close>: an object
                       has no \<open>substring\<close>, so the call throws a TypeError\<close>
                   ocr_catch (JsError ''TypeError''
                                ''formulasArray[0]?.substring is not a function'') s
               | FormulaString t # rest \<Rightarrow>
                   s\<lparr> ocrResults := ocrResults s @
                          newOcrResults nowAt (selection_center containerRect sel) sel
                            (formulasArray results),
                      latestOcrResult := Some \<lparr> latest_latex = FormulaString t,
                          latest_timestamp = timeText,
                          latest_confidence = confidence results,
                          rawResult = raw_result results \<rparr>,
                      showOcrPanel := True,
                      ocrPanelMinimized := False \<rparr>))
     in s'\<lparr> ocrLoading := False \<rparr>)"

definition performOcrExtraction ::
  "selection_data \<Rightarrow> (rat \<times> rat) option \<Rightarrow> (nat \<Rightarrow> nat) \<Rightarrow> string
     \<Rightarrow> ocr_response fetch_outcome \<Rightarrow> ocr_state \<Rightarrow> ocr_state" where
  \<comment> \<open>the whole call, nothing else happening while the request is under way\<close>
  "performOcrExtraction sel containerRect nowAt timeText outcome s =
     (if \<not> truthy (imageData sel) then s
      else performOcrExtraction_resume sel containerRect nowAt timeText
             (extractContent outcome) (s\<lparr> ocrMode := False, ocrLoading := True \<rparr>))"

definition distinct_ids :: "ocr_result list \<Rightarrow> bool" where
  "distinct_ids rs = distinct (map result_id rs)"

text \<open>A sample selection and sample answers of the OCR endpoint.\<close>

definition sample_selection :: selection_data where
  "sample_selection =
     \<lparr> imageData = Some ''data:image/png;base64,iVBORw0KGgo='',
       coordinates = Some \<lparr> rect_x = 10, rect_y = 20, rect_width = 100, rect_height = 40 \<rparr>,
       selectionRect = Some \<lparr> rect_x = 310, rect_y = 220, rect_width = 100, rect_height = 40 \<rparr> \<rparr>"

definition sample_clock :: "nat \<Rightarrow> nat" where
  "sample_clock i = 1700000000000 + i"

definition response_object_formula :: "ocr_response fetch_outcome" where
  \<comment> \<open>one formula, given as an object\<close>
  "response_object_formula = FetchResponse True 200 (Inr (JsonValue
     \<lparr> success = True, response_error = None,
       formulas = Some [FormulaObject (Some ''x^2'') (Some (9/10)) (Some ''inline'')],
       latex = None, confidence = Some (9/10), raw_result = None \<rparr>))"

definition response_unsuccessful :: "ocr_response fetch_outcome" where
  "response_unsuccessful = FetchResponse True 200 (Inr (JsonValue
     \<lparr> success = False, response_error = Some ''model not loaded'',
       formulas = None, latex = None, confidence = None, raw_result = None \<rparr>))"

section \<open>Properties of the number model\<close>

lemma powi_bitlen:
  assumes "0 < (a::int)"
  shows "(2::rat) powi (bitlen a - 1) \<le> of_int a" "of_int a < (2::rat) powi (bitlen a)"
proof -
  from bitlen_bounds[OF assms] have 1: "2 ^ nat (bitlen a - 1) \<le> a" and 2: "a < 2 ^ nat (bitlen a)" by auto
  have p: "bitlen a \<ge> 1" using assms bitlen_bounds[OF assms] 
    by (smt (verit) bitlen_nonneg nat_0_iff power_0)
  have "(2::rat) powi (bitlen a - 1) = of_int (2 ^ nat (bitlen a - 1))" using p
    by (simp add: power_int_def)
  also have "\<dots> \<le> of_int a" using 1 by (simp only: of_int_le_iff)
  finally show "(2::rat) powi (bitlen a - 1) \<le> of_int a" .
  have "(of_int a :: rat) < of_int (2 ^ nat (bitlen a))" using 2 by (simp only: of_int_less_iff)
  also have "\<dots> = (2::rat) powi (bitlen a)" using p by (simp add: power_int_def)
  finally show "of_int a < (2::rat) powi (bitlen a)" .
qed

lemma binade_bounds:
  assumes "0 < x"
  shows "2 powi binade x \<le> x" "x < 2 powi (binade x + 1)"
proof -
  obtain a b where q: "quotient_of x = (a, b)" by (cases "quotient_of x")
  then have b: "0 < b" and x: "x = of_int a / of_int b"
    using quotient_of_denom_pos quotient_of_div by auto
  have a: "0 < a" using assms b x by (simp add: zero_less_divide_iff)
  let ?d = "bitlen a - bitlen b"
  have lo: "(2::rat) powi (?d - 1) \<le> x"
  proof -
    have "(2::rat) powi (?d - 1) = 2 powi (bitlen a - 1) / 2 powi (bitlen b)"
      by (simp add: power_int_diff)
    also have "\<dots> \<le> of_int a / 2 powi (bitlen b)"
      using powi_bitlen(1)[OF a] by (simp add: divide_right_mono)
    also have "\<dots> \<le> of_int a / of_int b"
      using powi_bitlen(2)[OF b] a b by (simp add: frac_le)
    finally show ?thesis using x by simp
  qed
  have hi: "x < (2::rat) powi (?d + 1)"
  proof -
    have "x = of_int a / of_int b" by (rule x)
    also have "\<dots> < 2 powi (bitlen a) / of_int b"
      using powi_bitlen(2)[OF a] b by (simp add: divide_strict_right_mono)
    also have "\<dots> \<le> 2 powi (bitlen a) / 2 powi (bitlen b - 1)"
      using powi_bitlen(1)[OF b] b by (intro divide_left_mono) (auto simp: zero_less_power_int)
    also have "\<dots> = 2 powi (?d + 1)"
      by (simp add: power_int_diff power_int_add)
    finally show ?thesis .
  qed
  have bd: "binade x = (if 2 powi ?d \<le> x then ?d else ?d - 1)"
    by (simp add: binade_def q Let_def)
  show "2 powi binade x \<le> x" using lo by (simp add: bd)
  show "x < 2 powi (binade x + 1)" using hi by (simp add: bd not_le)
qed

lemma round_half_even_range: "\<lfloor>r\<rfloor> \<le> round_half_even r" "round_half_even r \<le> \<lfloor>r\<rfloor> + 1"
  by (simp_all add: round_half_even_def Let_def)

lemma round_half_even_of_int [simp]: "round_half_even (of_int m) = m"
  by (simp add: round_half_even_def)

lemma round_half_even_mono: "r \<le> s \<Longrightarrow> round_half_even r \<le> round_half_even s"
proof -
  assume rs: "r \<le> s"
  have fl: "\<lfloor>r\<rfloor> \<le> \<lfloor>s\<rfloor>" using rs by (rule floor_mono)
  show ?thesis
  proof (cases "\<lfloor>r\<rfloor> = \<lfloor>s\<rfloor>")
    case True
    then have "r - of_int \<lfloor>r\<rfloor> \<le> s - of_int \<lfloor>s\<rfloor>" using rs by simp
    then show ?thesis using True unfolding round_half_even_def Let_def by auto
  next
    case False
    then have "\<lfloor>r\<rfloor> + 1 \<le> \<lfloor>s\<rfloor>" using fl by simp
    then show ?thesis using round_half_even_range(2)[of r] round_half_even_range(1)[of s] by linarith
  qed
qed

lemma round_half_even_ge: "of_int m \<le> r \<Longrightarrow> m \<le> round_half_even r"
  using round_half_even_mono[of "of_int m" r] by simp

lemma round_half_even_le: "r \<le> of_int m \<Longrightarrow> round_half_even r \<le> m"
  using round_half_even_mono[of r "of_int m"] by simp

lemma binade_mono: "0 < x \<Longrightarrow> x \<le> y \<Longrightarrow> binade x \<le> binade y"
proof -
  assume x: "0 < x" and xy: "x \<le> y"
  then have y: "0 < y" by simp
  have "(2::rat) powi binade x < 2 powi (binade y + 1)"
    using binade_bounds(1)[OF x] binade_bounds(2)[OF y] xy by linarith
  moreover have "binade y + 1 \<le> binade x \<Longrightarrow> (2::rat) powi (binade y + 1) \<le> 2 powi binade x"
    by (rule power_int_increasing) simp_all
  ultimately show ?thesis by linarith
qed

lemma to_double_pos_eq:
  "0 < x \<Longrightarrow> to_double x = of_int (round_half_even (x / 2 powi (binade x - 52))) * 2 powi (binade x - 52)"
  by (simp add: to_double_def Let_def)

lemma to_double_pos_bounds:
  assumes "0 < x"
  shows "2 powi binade x \<le> to_double x" "to_double x \<le> 2 powi (binade x + 1)"
proof -
  let ?u = "(2::rat) powi (binade x - 52)"
  have u: "0 < ?u" by (simp add: zero_less_power_int)
  have e1: "(2::rat) powi binade x = of_int (2 ^ 52) * ?u"
    by (simp add: power_int_diff)
  have e2: "(2::rat) powi (binade x + 1) = of_int (2 ^ 53) * ?u"
    by (simp add: power_int_diff power_int_add)
  have "of_int (2 ^ 52) \<le> x / ?u"
    using binade_bounds(1)[OF assms] u unfolding e1 by (simp add: pos_le_divide_eq)
  then have "2 ^ 52 \<le> round_half_even (x / ?u)" by (rule round_half_even_ge)
  then have "(of_int (2 ^ 52) :: rat) \<le> of_int (round_half_even (x / ?u))"
    by (simp only: of_int_le_iff)
  then show "2 powi binade x \<le> to_double x"
    unfolding e1 to_double_pos_eq[OF assms] using u by (simp only: mult_le_cancel_right_pos)
  have "x / ?u \<le> of_int (2 ^ 53)"
    using binade_bounds(2)[OF assms] u unfolding e2 by (simp add: pos_divide_le_eq)
  then have "round_half_even (x / ?u) \<le> 2 ^ 53" by (rule round_half_even_le)
  then have "(of_int (round_half_even (x / ?u)) :: rat) \<le> of_int (2 ^ 53)"
    by (simp only: of_int_le_iff)
  then show "to_double x \<le> 2 powi (binade x + 1)"
    unfolding e2 to_double_pos_eq[OF assms] using u by (simp only: mult_le_cancel_right_pos)
qed

lemma to_double_mono_pos:
  assumes x: "0 < x" and xy: "x \<le> y"
  shows "to_double x \<le> to_double y"
proof -
  have y: "0 < y" using x xy by simp
  show ?thesis
  proof (cases "binade x = binade y")
    case True
    let ?u = "(2::rat) powi (binade y - 52)"
    have u: "0 < ?u" by (simp add: zero_less_power_int)
    have "x / ?u \<le> y / ?u" using xy u by (simp add: divide_right_mono)
    then have "round_half_even (x / ?u) \<le> round_half_even (y / ?u)" by (rule round_half_even_mono)
    then have "(of_int (round_half_even (x / ?u)) :: rat) \<le> of_int (round_half_even (y / ?u))"
      by (simp only: of_int_le_iff)
    then show ?thesis
      unfolding to_double_pos_eq[OF x] to_double_pos_eq[OF y] True using u
      by (simp only: mult_le_cancel_right_pos)
  next
    case False
    then have "binade x + 1 \<le> binade y" using binade_mono[OF x xy] by simp
    then have "(2::rat) powi (binade x + 1) \<le> 2 powi binade y"
      by (simp add: power_int_increasing)
    then show ?thesis
      using to_double_pos_bounds(2)[OF x] to_double_pos_bounds(1)[OF y] by linarith
  qed
qed

lemma to_double_zero [simp]: "to_double 0 = 0"
  by (simp add: to_double_def)

lemma to_double_pos: "0 < x \<Longrightarrow> 0 < to_double x"
proof -
  assume x: "0 < x"
  have "(0::rat) < 2 powi binade x" by (rule zero_less_power_int) simp
  then show ?thesis using to_double_pos_bounds(1)[OF x] by (rule less_le_trans)
qed

lemma to_double_mono: "0 \<le> x \<Longrightarrow> x \<le> y \<Longrightarrow> to_double x \<le> to_double y"
proof -
  assume x: "0 \<le> x" and xy: "x \<le> y"
  show ?thesis
  proof (cases "x = 0")
    case True
    then show ?thesis using xy to_double_pos[of y] by (cases "y = 0") auto
  next
    case False
    then show ?thesis using x xy to_double_mono_pos[of x y] by simp
  qed
qed

lemma to_double_100: "to_double 100 = 100" by code_simp
lemma to_double_1: "to_double 1 = 1" by code_simp
lemma to_double_3: "to_double 3 = 3" by code_simp
lemma to_double_half: "to_double (1/2) = 1/2" by code_simp

lemma to_double_fifth: "to_double (1/5) = 3602879701896397 / 18014398509481984" by code_simp

lemma zoomIn_bounds:
  assumes "1/2 \<le> s" "s \<le> 3"
  shows "1/2 \<le> zoomIn s" "zoomIn s \<le> 3"
proof -
  have "to_double (1/2) \<le> to_double (s + to_double (2/10))"
    using assms by (intro to_double_mono) (simp_all add: to_double_fifth)
  then show "1/2 \<le> zoomIn s"
    by (simp add: zoomIn_def js_add_def to_double_half to_double_3)
  show "zoomIn s \<le> 3" by (simp add: zoomIn_def to_double_3)
qed

lemma zoomOut_bounds:
  assumes "1/2 \<le> s" "s \<le> 3"
  shows "1/2 \<le> zoomOut s" "zoomOut s \<le> 3"
proof -
  have "to_double (s - to_double (2/10)) \<le> to_double 3"
    using assms by (intro to_double_mono) (simp_all add: to_double_fifth)
  then show "zoomOut s \<le> 3"
    by (simp add: zoomOut_def js_sub_def to_double_half to_double_3)
  show "1/2 \<le> zoomOut s" by (simp add: zoomOut_def to_double_half)
qed

lemma fold_zoom_bounds:
  "1/2 \<le> s \<Longrightarrow> s \<le> 3 \<Longrightarrow> 1/2 \<le> fold apply_zoom ops s \<and> fold apply_zoom ops s \<le> 3"
proof (induction ops arbitrary: s)
  case Nil
  then show ?case by simp
next
  case (Cons z ops)
  have "1/2 \<le> apply_zoom z s \<and> apply_zoom z s \<le> 3"
    using Cons.prems zoomIn_bounds zoomOut_bounds by (cases z) simp_all
  then show ?case using Cons.IH by simp
qed

section \<open>The zoom factor stays in range\<close>

text \<open>
  Claim C10. For every finite sequence of \<open>zoomIn\<close> and \<open>zoomOut\<close> operations starting
  from the initial scale 1.0, the scale remains within [0.5, 3.0]; \<open>zoomIn\<close> maps a scale
  \<open>s\<close> to \<open>min(s + 0.2, 3.0)\<close> and \<open>zoomOut\<close> maps it to \<open>max(s - 0.2, 0.5)\<close>, the sum and
  the difference being the rounded ones of binary64 arithmetic.
\<close>

theorem zoom_scale_within_bounds:
  "1/2 \<le> scale_after ops \<and> scale_after ops \<le> 3
   \<and> zoomIn s = min (js_add s (to_double (2/10))) 3
   \<and> zoomOut s = max (js_sub s (to_double (2/10))) (1/2)"
  using fold_zoom_bounds[of initial_scale ops]
  by (simp add: scale_after_def initial_scale_def to_double_1 zoomIn_def zoomOut_def
        to_double_3 to_double_half)

section \<open>Properties of page preloading\<close>

lemma hpls_loadedPages [simp]:
  "loadedPages (handlePageLoadSuccess p now s) = finsert p (loadedPages s)"
  by (simp add: handlePageLoadSuccess_def Let_def split: option.split)

lemma hpls_numPages [simp]: "numPages (handlePageLoadSuccess p now s) = numPages s"
  by (simp add: handlePageLoadSuccess_def Let_def split: option.split)

lemma hpls_isLoadingPdf [simp]: "isLoadingPdf (handlePageLoadSuccess p now s) = isLoadingPdf s"
  by (simp add: handlePageLoadSuccess_def Let_def split: option.split)

lemma hpls_pageCache:
  "pageCache (handlePageLoadSuccess p now s) =
     (pageCache s)(p \<mapsto> \<lparr> loaded = True, timestamp = now,
                             renderTime = int now - int (load_start now s) \<rparr>)"
  by (simp add: handlePageLoadSuccess_def Let_def split: option.split)

lemma hpls_loading:
  assumes "isLoadingPdf s" "numPages s = Some n" "n \<noteq> 0"
  shows "loadingProgress (handlePageLoadSuccess p now s) =
           Math_round (js_mul (js_div (of_nat (fcard (finsert p (loadedPages s)))) (of_nat n)) 100)"
    and "loadingMessage (handlePageLoadSuccess p now s) =
           MsgRenderingPages (fcard (finsert p (loadedPages s))) n
             (Math_round (js_mul (js_div (of_nat (fcard (finsert p (loadedPages s)))) (of_nat n)) 100))"
    and "pdfTimers (handlePageLoadSuccess p now s) =
           (if fcard (finsert p (loadedPages s)) = n
            then pdfTimers s @ [(200, CompleteLoading (int now - int (load_start now s)))]
            else pdfTimers s)"
  using assms by (simp_all add: handlePageLoadSuccess_def Let_def)


lemma percent_bounds:
  assumes "k \<le> n" "0 < n"
  shows "0 \<le> Math_round (js_mul (js_div (of_nat k) (of_nat n)) 100)"
    and "Math_round (js_mul (js_div (of_nat k) (of_nat n)) 100) \<le> 100"
proof -
  let ?q = "to_double (of_nat k / of_nat n)"
  have q0: "to_double 0 \<le> ?q" by (rule to_double_mono) simp_all
  have q1: "?q \<le> to_double 1" using assms by (intro to_double_mono) simp_all
  have v0: "to_double 0 \<le> to_double (?q * 100)" using q0 by (intro to_double_mono) simp_all
  have v1: "to_double (?q * 100) \<le> to_double 100"
    using q0 q1 by (intro to_double_mono) (simp_all add: to_double_1)
  show "0 \<le> Math_round (js_mul (js_div (of_nat k) (of_nat n)) 100)"
    using v0 by (simp add: Math_round_def js_mul_def js_div_def)
  have "\<lfloor>to_double (?q * 100) + 1/2\<rfloor> < 101"
    using v1 by (simp add: floor_less_iff to_double_100)
  then show "Math_round (js_mul (js_div (of_nat k) (of_nat n)) 100) \<le> 100"
    by (simp add: Math_round_def js_mul_def js_div_def)
qed

lemma percent_mono:
  assumes "k \<le> k'" "0 < n"
  shows "Math_round (js_mul (js_div (of_nat k) (of_nat n)) 100)
          \<le> Math_round (js_mul (js_div (of_nat k') (of_nat n)) 100)"
proof -
  have q: "to_double (of_nat k / of_nat n) \<le> to_double (of_nat k' / of_nat n)"
    using assms by (intro to_double_mono) (simp_all add: divide_right_mono)
  have q0: "0 \<le> to_double (of_nat k / of_nat n)"
    using to_double_mono[of 0 "of_nat k / of_nat n"] by simp
  have "to_double (to_double (of_nat k / of_nat n) * 100)
          \<le> to_double (to_double (of_nat k' / of_nat n) * 100)"
    using q q0 by (intro to_double_mono) simp_all
  then show ?thesis
    unfolding Math_round_def js_mul_def js_div_def by (intro floor_mono) simp
qed

lemma fcard_pages: "fcard (all_pages n) = n"
  by (simp add: all_pages_def fcard.rep_eq fset_of_list.rep_eq del: upt_Suc)

lemma page_in_range: "p |\<in>| all_pages n \<longleftrightarrow> 1 \<le> p \<and> p \<le> n"
  by (auto simp add: all_pages_def fset_of_list.rep_eq simp del: upt_Suc)

lemma fcard_le_pages: "A |\<subseteq>| all_pages n \<Longrightarrow> fcard A \<le> n"
  using fcard_mono[of A "all_pages n"] by (simp add: fcard_pages)


lemma pdf_step_still_loading: "isLoadingPdf (pdf_step e s) \<Longrightarrow> isLoadingPdf s"
proof (cases e)
  case (TimerFires t)
  obtain d cb where t: "t = (d, cb)" by (cases t)
  assume "isLoadingPdf (pdf_step e s)"
  then show ?thesis using TimerFires t
    by (cases cb) (auto simp: fire_pdf_timer_def preloadAllPages_catch_def split: if_splits)
qed (auto simp: page_onLoadSuccess_def page_onLoadError_def skipLoading_def cancelLoading_def
       preloadAllPages_catch_def split: if_splits)

lemma fire_pdf_timer_fields:
  assumes "isLoadingPdf (fire_pdf_timer t s)"
  shows "numPages (fire_pdf_timer t s) = numPages s"
    and "loadedPages (fire_pdf_timer t s) = loadedPages s"
    and "loadingProgress (fire_pdf_timer t s) = loadingProgress s"
proof -
  obtain d cb where t: "t = (d, cb)" by (cases t)
  show "numPages (fire_pdf_timer t s) = numPages s"
    and "loadedPages (fire_pdf_timer t s) = loadedPages s"
    and "loadingProgress (fire_pdf_timer t s) = loadingProgress s"
    using assms t
    by (cases cb; auto simp: fire_pdf_timer_def preloadAllPages_catch_def split: if_splits)+
qed

lemma progress_inv_step:
  assumes n: "0 < n"
    and valid: "case page_of e of None \<Rightarrow> True | Some p \<Rightarrow> p |\<in>| all_pages n"
    and inv: "isLoadingPdf s \<longrightarrow> numPages s = Some n \<and> loadedPages s |\<subseteq>| all_pages n \<and>
        loadingProgress s = Math_round (js_mul (js_div (of_nat (fcard (loadedPages s))) (of_nat n)) 100)"
    and after: "isLoadingPdf (pdf_step e s)"
  shows "numPages (pdf_step e s) = Some n \<and> loadedPages (pdf_step e s) |\<subseteq>| all_pages n \<and>
        loadingProgress (pdf_step e s) =
          Math_round (js_mul (js_div (of_nat (fcard (loadedPages (pdf_step e s)))) (of_nat n)) 100)"
proof -
  have before: "isLoadingPdf s" using after by (rule pdf_step_still_loading)
  with inv have np: "numPages s = Some n" and sub: "loadedPages s |\<subseteq>| all_pages n"
    and pr: "loadingProgress s = Math_round (js_mul (js_div (of_nat (fcard (loadedPages s))) (of_nat n)) 100)"
    by simp_all
  have page: "\<And>p now. p |\<in>| all_pages n \<Longrightarrow>
     numPages (handlePageLoadSuccess p now s) = Some n \<and>
     loadedPages (handlePageLoadSuccess p now s) |\<subseteq>| all_pages n \<and>
     loadingProgress (handlePageLoadSuccess p now s) =
       Math_round (js_mul (js_div (of_nat (fcard (loadedPages (handlePageLoadSuccess p now s)))) (of_nat n)) 100)"
    using before np sub n hpls_loading(1)[of s n] by simp
  show ?thesis
  proof (cases e)
    case (PageLoadSuccess p now)
    then show ?thesis using page[of p now] valid by (simp add: page_onLoadSuccess_def)
  next
    case (PageLoadError p err now)
    then show ?thesis using page[of p now] valid by (simp add: page_onLoadError_def)
  next
    case (TimerFires t)
    then show ?thesis using fire_pdf_timer_fields[of t s] after np sub pr by simp
  next
    case SkipClicked
    then show ?thesis using after by (simp add: skipLoading_def)
  next
    case CancelClicked
    then show ?thesis using after by (simp add: cancelLoading_def)
  next
    case (PreloadError r c t)
    then show ?thesis using after np sub pr
      by (auto simp: preloadAllPages_catch_def split: if_splits)
  qed
qed

lemma progress_inv_run:
  assumes n: "0 < n"
  shows "pages_valid n es \<Longrightarrow>
    (isLoadingPdf s \<longrightarrow> numPages s = Some n \<and> loadedPages s |\<subseteq>| all_pages n \<and>
        loadingProgress s = Math_round (js_mul (js_div (of_nat (fcard (loadedPages s))) (of_nat n)) 100)) \<Longrightarrow>
    isLoadingPdf (pdf_run es s) \<Longrightarrow>
    numPages (pdf_run es s) = Some n \<and> loadedPages (pdf_run es s) |\<subseteq>| all_pages n \<and>
        loadingProgress (pdf_run es s) =
          Math_round (js_mul (js_div (of_nat (fcard (loadedPages (pdf_run es s)))) (of_nat n)) 100)"
proof (induction es arbitrary: s)
  case Nil
  then show ?case by (simp add: pdf_run_def)
next
  case (Cons e es)
  have v: "case page_of e of None \<Rightarrow> True | Some p \<Rightarrow> p |\<in>| all_pages n"
    and vs: "pages_valid n es" using Cons.prems(1) by (simp_all add: pages_valid_def)
  have run: "pdf_run (e # es) s = pdf_run es (pdf_step e s)" by (simp add: pdf_run_def)
  have "isLoadingPdf (pdf_step e s) \<longrightarrow> numPages (pdf_step e s) = Some n \<and>
        loadedPages (pdf_step e s) |\<subseteq>| all_pages n \<and>
        loadingProgress (pdf_step e s) =
          Math_round (js_mul (js_div (of_nat (fcard (loadedPages (pdf_step e s)))) (of_nat n)) 100)"
    using progress_inv_step[OF n v Cons.prems(2)] by blast
  from Cons.IH[OF vs this] Cons.prems(3) show ?case unfolding run by simp
qed

lemma Math_round_zero: "Math_round 0 = 0"
  unfolding Math_round_def by (rule floor_unique) simp_all

lemma progress_inv_start:
  "numPages (onDocumentLoadSuccess n t0 s0) = Some n \<and>
   loadedPages (onDocumentLoadSuccess n t0 s0) |\<subseteq>| all_pages n \<and>
   loadingProgress (onDocumentLoadSuccess n t0 s0) =
     Math_round (js_mul (js_div (of_nat (fcard (loadedPages (onDocumentLoadSuccess n t0 s0)))) (of_nat n)) 100)"
  by (simp add: onDocumentLoadSuccess_def preloadAllPages_def Math_round_zero js_mul_def js_div_def
      fcard.rep_eq)

lemma render_pages_run:
  "loadedPages (pdf_run (render_pages ps now) s) = fset_of_list ps |\<union>| loadedPages s
   \<and> isLoadingPdf (pdf_run (render_pages ps now) s) = isLoadingPdf s
   \<and> numPages (pdf_run (render_pages ps now) s) = numPages s"
proof (induction ps arbitrary: s)
  case Nil
  then show ?case by (simp add: pdf_run_def render_pages_def)
next
  case (Cons p ps)
  have "pdf_run (render_pages (p # ps) now) s
          = pdf_run (render_pages ps now) (handlePageLoadSuccess p now s)"
    by (simp add: pdf_run_def render_pages_def page_onLoadSuccess_def)
  then show ?case using Cons.IH[of "handlePageLoadSuccess p now s"] by auto
qed

lemma start_fields:
  "isLoadingPdf (onDocumentLoadSuccess n t0 s0)"
  "numPages (onDocumentLoadSuccess n t0 s0) = Some n"
  "loadedPages (onDocumentLoadSuccess n t0 s0) = {||}"
  "loadingProgress (onDocumentLoadSuccess n t0 s0) = 0"
  "pdfTimers (onDocumentLoadSuccess n t0 s0)
     = pdfTimers s0 @ [(45000, PreloadTimeout (Suc (preloadRun s0)) (fcard (loadedPages s0)) n)]"
  by (simp_all add: onDocumentLoadSuccess_def preloadAllPages_def)

lemma pages_valid_render: "pages_valid n (render_pages ps now) \<longleftrightarrow> fset_of_list ps |\<subseteq>| all_pages n"
  by (induction ps) (simp_all add: pages_valid_def render_pages_def)

lemma upt_pages_subset: "k \<le> Suc n \<Longrightarrow> fset_of_list [1..<k] |\<subseteq>| all_pages n"
  by (auto simp add: all_pages_def fset_of_list.rep_eq less_eq_fset.rep_eq simp del: upt_Suc)

lemma fcard_upt: "fcard (fset_of_list [1..<k]) = k - 1"
  by (simp add: fcard.rep_eq fset_of_list.rep_eq del: upt_Suc)

lemma percent_23_40: "Math_round (js_mul (js_div 23 40) 100) = 57"
  by code_simp

lemma percent_claimed_23_40:
  "Math_round (100 * 23 / 40) = 58" "Math_round (js_div (js_mul 100 23) 40) = 58"
  by code_simp+

lemma percent_full: "Math_round (js_mul (js_div 1 1) 100) = 100" "Math_round (js_mul (js_div 2 2) 100) = 100"
  by code_simp+

text \<open>
  Claim C5. A page whose rendering fails is recorded exactly like one that rendered: the
  \<open>onLoadError\<close> callback of a page calls \<open>handlePageLoadSuccess\<close> for its page number, so
  the page enters \<open>loadedPages\<close>, gets a \<open>pageCache\<close> entry with \<open>loaded: true\<close>, and, while
  the document is being preloaded, the progress is recomputed from the enlarged set, a
  page that was not yet listed raises the count by one, and reaching \<open>numPages\<close> schedules
  the completion of the loading state.
\<close>

theorem failed_page_counts_as_loaded:
  "page_onLoadError p err now s = page_onLoadSuccess p now s
   \<and> p |\<in>| loadedPages (page_onLoadError p err now s)
   \<and> (\<exists>c. pageCache (page_onLoadError p err now s) p = Some c \<and> loaded c)
   \<and> (isLoadingPdf s \<and> numPages s = Some n \<and> n \<noteq> 0 \<longrightarrow>
        loadingProgress (page_onLoadError p err now s) =
          Math_round (js_mul (js_div (of_nat (fcard (finsert p (loadedPages s)))) (of_nat n)) 100)
        \<and> (p |\<notin>| loadedPages s \<longrightarrow>
             fcard (loadedPages (page_onLoadError p err now s)) = Suc (fcard (loadedPages s)))
        \<and> (fcard (loadedPages (page_onLoadError p err now s)) = n \<longrightarrow>
             (\<exists>loadTime. (200, CompleteLoading loadTime)
                  \<in> set (pdfTimers (page_onLoadError p err now s)))))"
proof -
  have 1: "page_onLoadError p err now s = page_onLoadSuccess p now s"
    by (simp add: page_onLoadError_def page_onLoadSuccess_def)
  have 2: "p |\<in>| loadedPages (page_onLoadError p err now s)"
    by (simp add: page_onLoadError_def)
  have 3: "\<exists>c. pageCache (page_onLoadError p err now s) p = Some c \<and> loaded c"
    by (simp add: page_onLoadError_def hpls_pageCache)
  have 4: "loadingProgress (page_onLoadError p err now s) =
          Math_round (js_mul (js_div (of_nat (fcard (finsert p (loadedPages s)))) (of_nat n)) 100)"
    if "isLoadingPdf s" "numPages s = Some n" "n \<noteq> 0"
    using hpls_loading(1)[OF that] by (simp add: page_onLoadError_def)
  have 5: "fcard (loadedPages (page_onLoadError p err now s)) = Suc (fcard (loadedPages s))"
    if "p |\<notin>| loadedPages s"
    using that by (simp add: page_onLoadError_def fcard_finsert_if)
  have 6: "\<exists>loadTime. (200, CompleteLoading loadTime) \<in> set (pdfTimers (page_onLoadError p err now s))"
    if "isLoadingPdf s" "numPages s = Some n" "n \<noteq> 0"
       "fcard (loadedPages (page_onLoadError p err now s)) = n"
    using hpls_loading(3)[OF that(1,2,3), of p now] that(4) by (auto simp add: page_onLoadError_def)
  show ?thesis using 1 2 3 4 5 6 by blast
qed

theorem failed_page_counts_as_loaded_witness:
  "isLoadingPdf (onDocumentLoadSuccess 1 0 initial_pdf_state)
   \<and> numPages (onDocumentLoadSuccess 1 0 initial_pdf_state) = Some 1
   \<and> 1 |\<notin>| loadedPages (onDocumentLoadSuccess 1 0 initial_pdf_state)
   \<and> 1 |\<in>| loadedPages (page_onLoadError 1 ''no such page'' 7 (onDocumentLoadSuccess 1 0 initial_pdf_state))
   \<and> fcard (loadedPages (page_onLoadError 1 ''no such page'' 7
        (onDocumentLoadSuccess 1 0 initial_pdf_state))) = 1
   \<and> loadingProgress (page_onLoadError 1 ''no such page'' 7
        (onDocumentLoadSuccess 1 0 initial_pdf_state)) = 100
   \<and> (\<exists>loadTime. (200, CompleteLoading loadTime) \<in> set (pdfTimers
        (page_onLoadError 1 ''no such page'' 7 (onDocumentLoadSuccess 1 0 initial_pdf_state))))"
proof -
  let ?s = "onDocumentLoadSuccess 1 0 initial_pdf_state"
  let ?s' = "page_onLoadError 1 ''no such page'' 7 ?s"
  note T = failed_page_counts_as_loaded[of 1 "''no such page''" 7 ?s 1]
  have h: "isLoadingPdf ?s \<and> numPages ?s = Some 1 \<and> (1::nat) \<noteq> 0"
    by (simp add: start_fields)
  have nin: "1 |\<notin>| loadedPages ?s" by (simp add: start_fields)
  have a: "1 |\<in>| loadedPages ?s'" using T by blast
  have "loadingProgress ?s' =
          Math_round (js_mul (js_div (of_nat (fcard (finsert 1 (loadedPages ?s)))) (of_nat 1)) 100)"
    using T h by blast
  then have b: "loadingProgress ?s' = 100"
    by (simp add: start_fields fcard.rep_eq percent_full)
  have "fcard (loadedPages ?s') = Suc (fcard (loadedPages ?s))" using T h nin by blast
  then have c: "fcard (loadedPages ?s') = 1" by (simp add: start_fields fcard.rep_eq)
  have d: "\<exists>loadTime. (200, CompleteLoading loadTime) \<in> set (pdfTimers ?s')"
    using T h c by blast
  show ?thesis using h nin a b c d by blast
qed

text \<open>
  Claim C3, as amended. During one preloading run, after every page notification the
  loading progress equals \<open>Math.round((|loadedPages| / numPages) * 100)\<close> as binary64
  arithmetic evaluates it, the quotient first and then the product; it lies in [0, 100],
  it is not smaller than before the notification, and the loading message reports the
  size of \<open>loadedPages\<close>, \<open>numPages\<close> and that progress.
\<close>

theorem preload_progress:
  assumes "0 < n" and "pages_valid n es" and "page_of e = Some p" and "p |\<in>| all_pages n"
    and "s = pdf_run es (onDocumentLoadSuccess n t0 s0)"
    and "isLoadingPdf s"
    and "s' = pdf_step e s"
  shows "loadingProgress s' =
           Math_round (js_mul (js_div (of_nat (fcard (loadedPages s'))) (of_nat n)) 100)
         \<and> 0 \<le> loadingProgress s' \<and> loadingProgress s' \<le> 100
         \<and> loadingProgress s \<le> loadingProgress s'
         \<and> loadingMessage s' = MsgRenderingPages (fcard (loadedPages s')) n (loadingProgress s')"
proof -
  have inv: "numPages s = Some n \<and> loadedPages s |\<subseteq>| all_pages n \<and>
        loadingProgress s = Math_round (js_mul (js_div (of_nat (fcard (loadedPages s))) (of_nat n)) 100)"
    using progress_inv_run[OF assms(1,2), of "onDocumentLoadSuccess n t0 s0"]
      progress_inv_start[of n t0 s0] assms(5,6) by simp
  obtain now where s': "s' = handlePageLoadSuccess p now s"
    using assms(3,7) by (cases e) (simp_all add: page_onLoadSuccess_def page_onLoadError_def)
  have n0: "n \<noteq> 0" using assms(1) by simp
  have lp: "loadedPages s' = finsert p (loadedPages s)" by (simp add: s')
  have pr: "loadingProgress s' =
           Math_round (js_mul (js_div (of_nat (fcard (loadedPages s'))) (of_nat n)) 100)"
    unfolding lp unfolding s' using hpls_loading(1)[OF assms(6) _ n0] inv by simp
  have msg: "loadingMessage s' = MsgRenderingPages (fcard (loadedPages s')) n (loadingProgress s')"
    unfolding pr unfolding lp unfolding s' using hpls_loading(2)[OF assms(6) _ n0] inv by simp
  have sub: "loadedPages s' |\<subseteq>| all_pages n" using inv assms(4) by (simp add: lp)
  have le: "fcard (loadedPages s') \<le> n" using sub by (rule fcard_le_pages)
  have mono: "fcard (loadedPages s) \<le> fcard (loadedPages s')"
    unfolding lp by (intro fcard_mono) auto
  have "loadingProgress s \<le> loadingProgress s'"
    using percent_mono[OF mono assms(1)] inv pr by simp
  then show ?thesis using pr msg percent_bounds[OF le assms(1)] by simp
qed

theorem preload_progress_witness:
  "(0::nat) < 2 \<and> pages_valid 2 (render_pages [1] 10)
   \<and> page_of (PageLoadError 2 ''no such page'' 20) = Some 2 \<and> 2 |\<in>| all_pages 2
   \<and> isLoadingPdf (pdf_run (render_pages [1] 10) (onDocumentLoadSuccess 2 0 initial_pdf_state))
   \<and> loadingProgress (pdf_step (PageLoadError 2 ''no such page'' 20)
        (pdf_run (render_pages [1] 10) (onDocumentLoadSuccess 2 0 initial_pdf_state))) = 100
   \<and> loadingMessage (pdf_step (PageLoadError 2 ''no such page'' 20)
        (pdf_run (render_pages [1] 10) (onDocumentLoadSuccess 2 0 initial_pdf_state)))
       = MsgRenderingPages 2 2 100"
proof -
  let ?s = "pdf_run (render_pages [1] 10) (onDocumentLoadSuccess 2 0 initial_pdf_state)"
  let ?e = "PageLoadError 2 ''no such page'' 20"
  have h1: "(0::nat) < 2" by simp
  have h2: "pages_valid 2 (render_pages [1] 10)"
    by (simp add: pages_valid_render page_in_range)
  have h3: "page_of ?e = Some 2" by simp
  have h4: "2 |\<in>| all_pages 2" by (simp add: page_in_range)
  have h5: "isLoadingPdf ?s"
    using render_pages_run[of "[1]" 10 "onDocumentLoadSuccess 2 0 initial_pdf_state"]
    by (simp only: start_fields)
  have lp: "loadedPages (pdf_step ?e ?s) = {|1, 2|}"
    using render_pages_run[of "[1]" 10 "onDocumentLoadSuccess 2 0 initial_pdf_state"]
    by (auto simp add: start_fields page_onLoadError_def)
  have c: "fcard (loadedPages (pdf_step ?e ?s)) = 2"
    unfolding lp by (simp add: fcard.rep_eq)
  from preload_progress[OF h1 h2 h3 h4 refl h5 refl]
  show ?thesis using h2 h4 h5 unfolding c by (simp add: percent_full)
qed

text \<open>
  Claim C3 as stated gives the progress as \<open>Math.round(100 * |loadedPages| / numPages)\<close>.
  With 23 of 40 pages rendered this is 58, whether the quotient \<open>2300 / 40\<close> is taken
  exactly or in binary64 arithmetic, while the viewer shows 57: \<open>23 / 40\<close> rounds to a
  binary64 value below 0.575, and its product with 100 to one below 57.5.
\<close>

theorem progress_formula_counterexample:
  "fcard (loadedPages (pdf_run (render_pages [1..<24] 0)
       (onDocumentLoadSuccess 40 0 initial_pdf_state))) = 23
   \<and> isLoadingPdf (pdf_run (render_pages [1..<24] 0)
       (onDocumentLoadSuccess 40 0 initial_pdf_state))
   \<and> loadingProgress (pdf_run (render_pages [1..<24] 0)
       (onDocumentLoadSuccess 40 0 initial_pdf_state)) = 57
   \<and> Math_round (100 * 23 / 40) = 58
   \<and> Math_round (js_div (js_mul 100 23) 40) = 58"
proof -
  let ?start = "onDocumentLoadSuccess 40 0 initial_pdf_state"
  let ?s = "pdf_run (render_pages [1..<24] 0) ?start"
  have lp: "loadedPages ?s = fset_of_list [1..<24]"
    using render_pages_run[of "[1..<24]" 0 ?start] by (simp only: start_fields) simp
  have card: "fcard (loadedPages ?s) = 23" unfolding lp by (simp only: fcard_upt)
  have loading: "isLoadingPdf ?s"
    using render_pages_run[of "[1..<24]" 0 ?start] by (simp only: start_fields)
  have valid: "pages_valid 40 (render_pages [1..<24] 0)"
    unfolding pages_valid_render by (rule upt_pages_subset) simp
  have "loadingProgress ?s =
          Math_round (js_mul (js_div (of_nat (fcard (loadedPages ?s))) (of_nat 40)) 100)"
    using progress_inv_run[of 40 "render_pages [1..<24] 0" ?start, OF _ valid _ loading]
      progress_inv_start[of 40 0 initial_pdf_state] by simp
  then have "loadingProgress ?s = 57" unfolding card using percent_23_40 by simp
  then show ?thesis using card loading percent_claimed_23_40 by simp
qed

section \<open>Completion of the preloading run\<close>








lemma hpls_pageLoadStartTime [simp]:
  "pageLoadStartTime (handlePageLoadSuccess p now s) = pageLoadStartTime s"
  by (simp add: handlePageLoadSuccess_def Let_def split: option.split)

lemma hpls_preloadRun [simp]: "preloadRun (handlePageLoadSuccess p now s) = preloadRun s"
  by (simp add: handlePageLoadSuccess_def Let_def split: option.split)

lemma hpls_settledRuns:
  "settledRuns (handlePageLoadSuccess p now s) =
     (if p |\<in>| pageLoadPromises s \<and> pageLoadPromises s |-| {|p|} = {||}
      then finsert (preloadRun s) (settledRuns s) else settledRuns s)"
  by (simp add: handlePageLoadSuccess_def Let_def split: option.split)

lemma start_run_fields:
  "pageLoadPromises (onDocumentLoadSuccess n t0 s0) = all_pages n"
  "preloadRun (onDocumentLoadSuccess n t0 s0) = Suc (preloadRun s0)"
  "0 < n \<Longrightarrow> settledRuns (onDocumentLoadSuccess n t0 s0) = settledRuns s0"
  "loadingMessage (onDocumentLoadSuccess n t0 s0) = MsgRenderingTotal n"
  by (simp_all add: onDocumentLoadSuccess_def preloadAllPages_def)

lemma hpls_settledRuns_left:
  "q |\<in>| pageLoadPromises s \<Longrightarrow> q \<noteq> p \<Longrightarrow>
     settledRuns (handlePageLoadSuccess p now s) = settledRuns s"
  by (auto simp add: hpls_settledRuns)

lemma hpls_settledRuns_last:
  "pageLoadPromises s = {|p|} \<Longrightarrow>
     settledRuns (handlePageLoadSuccess p now s) = finsert (preloadRun s) (settledRuns s)"
  by (simp add: hpls_settledRuns)

lemma all_pages_one: "all_pages (Suc 0) = {|Suc 0|}"
  by (simp add: all_pages_def)

lemma initial_fields:
  "pdfTimers initial_pdf_state = []" "preloadRun initial_pdf_state = 0"
  "settledRuns initial_pdf_state = {||}" "loadedPages initial_pdf_state = {||}"
  by (simp_all add: initial_pdf_state_def)

lemma earlier_run_cancelled_fields:
  "pdfTimers earlier_run_cancelled = [(45000, PreloadTimeout 1 0 3)]"
  "settledRuns earlier_run_cancelled = {||}"
  "preloadRun earlier_run_cancelled = 1"
  "\<not> isLoadingPdf earlier_run_cancelled"
proof -
  let ?start = "onDocumentLoadSuccess 3 1000 initial_pdf_state"
  have run: "pdf_run (render_pages [1] 1100) ?start = handlePageLoadSuccess 1 1100 ?start"
    by (simp add: pdf_run_def render_pages_def page_onLoadSuccess_def)
  have t: "pdfTimers (handlePageLoadSuccess 1 1100 ?start) = pdfTimers ?start"
    using hpls_loading(3)[of ?start 3 1 1100] by (simp add: start_fields fcard.rep_eq)
  show "pdfTimers earlier_run_cancelled = [(45000, PreloadTimeout 1 0 3)]"
    unfolding earlier_run_cancelled_def run
    using t by (simp add: cancelLoading_def start_fields initial_fields fcard.rep_eq)
  show "settledRuns earlier_run_cancelled = {||}"
    unfolding earlier_run_cancelled_def run
    using hpls_settledRuns_left[of 2 ?start 1 1100]
    by (simp add: cancelLoading_def start_run_fields page_in_range initial_fields)
  show "preloadRun earlier_run_cancelled = 1"
    unfolding earlier_run_cancelled_def run
    by (simp add: cancelLoading_def start_run_fields initial_fields)
  show "\<not> isLoadingPdf earlier_run_cancelled"
    by (simp add: earlier_run_cancelled_def cancelLoading_def)
qed



text \<open>
  The 45 s timers of earlier runs stay pending. The timeout of a cancelled run, whose race
  never settles, still runs its \<open>catch\<close> block and ends the loading state of the run that
  follows; the timeout of a run whose pages have all rendered does nothing.
\<close>

lemma catch_unsettled:
  "run |\<notin>| settledRuns s \<Longrightarrow>
     \<not> isLoadingPdf (preloadAllPages_catch run True c k s)
     \<and> loadingMessage (preloadAllPages_catch run True c k s) = MsgLoadedPartial c k"
  by (simp add: preloadAllPages_catch_def)

lemma catch_settled: "run |\<in>| settledRuns s \<Longrightarrow> preloadAllPages_catch run b c k s = s"
  by (simp add: preloadAllPages_catch_def)

lemma stale_timeout_of_cancelled_run:
  "\<not> isLoadingPdf (fire_pdf_timer (45000, PreloadTimeout 1 0 3)
        (onDocumentLoadSuccess 2 5000 earlier_run_cancelled))
   \<and> loadingMessage (fire_pdf_timer (45000, PreloadTimeout 1 0 3)
        (onDocumentLoadSuccess 2 5000 earlier_run_cancelled)) = MsgLoadedPartial 0 3"
proof -
  let ?s = "onDocumentLoadSuccess 2 5000 earlier_run_cancelled"
  let ?t = "(45000, PreloadTimeout 1 0 3) :: pdf_timer"
  have pending: "?t \<in> set (pdfTimers ?s)"
    by (simp add: start_fields earlier_run_cancelled_fields)
  have "1 |\<notin>| settledRuns (?s\<lparr> pdfTimers := remove1 ?t (pdfTimers ?s) \<rparr>)"
    by (simp add: start_run_fields earlier_run_cancelled_fields)
  from catch_unsettled[OF this, of 0 3] show ?thesis
    using pending by (simp add: fire_pdf_timer_def)
qed

lemma stale_timeout_of_settled_run:
  "(45000, PreloadTimeout 1 0 1) \<in> set (pdfTimers (onDocumentLoadSuccess 2 5000 earlier_run_settled))
   \<and> isLoadingPdf (fire_pdf_timer (45000, PreloadTimeout 1 0 1)
        (onDocumentLoadSuccess 2 5000 earlier_run_settled))
   \<and> loadingMessage (fire_pdf_timer (45000, PreloadTimeout 1 0 1)
        (onDocumentLoadSuccess 2 5000 earlier_run_settled)) = MsgRenderingTotal 2"
proof -
  let ?first = "onDocumentLoadSuccess 1 1000 initial_pdf_state"
  let ?s = "onDocumentLoadSuccess 2 5000 earlier_run_settled"
  let ?t = "(45000, PreloadTimeout 1 0 1) :: pdf_timer"
  have run: "earlier_run_settled = handlePageLoadSuccess 1 1100 ?first"
    by (simp add: earlier_run_settled_def pdf_run_def render_pages_def page_onLoadSuccess_def)
  have settled: "settledRuns earlier_run_settled = {|1|}"
    unfolding run using hpls_settledRuns_last[of ?first 1 1100]
    by (simp add: start_run_fields all_pages_one initial_fields)
  have "?t \<in> set (pdfTimers earlier_run_settled)"
    unfolding run using hpls_loading(3)[of ?first 1 1 1100]
    by (simp add: start_fields fcard.rep_eq initial_fields)
  then have pending: "?t \<in> set (pdfTimers ?s)" by (simp add: start_fields)
  have "1 |\<in>| settledRuns (?s\<lparr> pdfTimers := remove1 ?t (pdfTimers ?s) \<rparr>)"
    by (simp add: start_run_fields settled)
  from catch_settled[OF this] show ?thesis
    using pending by (simp add: fire_pdf_timer_def start_fields start_run_fields)
qed

section \<open>Errors of the API client\<close>

lemma generateVideo_throws_iff:
  "(\<exists>e. generateVideo outcome = Inl e) \<longleftrightarrow>
     (case outcome of FetchRejected e \<Rightarrow> True
      | FetchResponse ok code parsed \<Rightarrow> \<not> ok \<or> (\<exists>e. parsed = Inl e))"
  by (auto simp: generateVideo_def split: fetch_outcome.splits sum.splits)

lemma generateVideo_returns_body:
  "generateVideo (FetchResponse True code (Inr body)) = Inr body"
  by (simp add: generateVideo_def)

lemma checkStatus_throws_iff:
  "(\<exists>e. checkStatus taskId outcome = Inl e) \<longleftrightarrow>
     (case outcome of FetchRejected e \<Rightarrow> True
      | FetchResponse ok code parsed \<Rightarrow> \<not> ok \<or> (\<exists>e. parsed = Inl e))"
  by (auto simp: checkStatus_def Let_def split: fetch_outcome.splits sum.splits)

lemma checkStatus_returns_body:
  "checkStatus taskId (FetchResponse True code (Inr body)) = Inr body"
  by (simp add: checkStatus_def)

lemma extractContent_throws_iff:
  "(\<exists>e. extractContent outcome = Inl e) \<longleftrightarrow>
     (case outcome of FetchRejected e \<Rightarrow> True
      | FetchResponse ok code parsed \<Rightarrow> \<not> ok \<or> (\<exists>e. parsed = Inl e) \<or> parsed = Inr JsonNull)"
  by (auto simp: extractContent_def split: fetch_outcome.splits sum.splits json_body.splits)

lemma extractContent_returns_body:
  "extractContent (FetchResponse True code (Inr (JsonValue v))) = Inr (JsonValue v)"
  by (simp add: extractContent_def)

text \<open>
  Claim C6 says that each of \<open>generateVideo\<close>, \<open>checkStatus\<close> and \<open>extractContent\<close> throws
  exactly when the request fails, the body cannot be parsed or the response is not ok, and
  otherwise returns the parsed body unchanged. For a response that is ok and whose body is
  the JSON text \<open>null\<close>, \<open>generateVideo\<close> and \<open>checkStatus\<close> return \<open>null\<close>, but
  \<open>extractContent\<close> throws: its log entry reads \<open>data.success\<close>.
\<close>

theorem extractContent_throws_on_null_body:
  "extractContent (FetchResponse True 200 (Inr JsonNull) :: ocr_response fetch_outcome)
     = Inl (JsError ''TypeError'' ''Cannot read properties of null (reading success)'')
   \<and> generateVideo (FetchResponse True 200 (Inr JsonNull) :: generate_response fetch_outcome)
     = Inr JsonNull
   \<and> checkStatus ''t1'' (FetchResponse True 200 (Inr JsonNull) :: status_response fetch_outcome)
     = Inr JsonNull"
  by (simp add: extractContent_def generateVideo_def checkStatus_def)

section \<open>Properties of the polling loop\<close>

lemma poll_completed:
  assumes r: "checkStatus taskId outcome = Inr (JsonValue st)"
    and c: "status st = Some ''completed''" "truthy (video_url st) \<or> truthy (video_path st)"
  shows "\<not> isGenerating (pollGenerationStatus taskId sel outcome explOutcome s)"
    and "genTimers (pollGenerationStatus taskId sel outcome explOutcome s) = genTimers s"
    and "ends_mp4 (video_url st) \<or> ends_mp4 (video_path st) \<Longrightarrow>
           showVideoPlayer (pollGenerationStatus taskId sel outcome explOutcome s)
           \<and> showExplanationViewer (pollGenerationStatus taskId sel outcome explOutcome s)
               = showExplanationViewer s
           \<and> alerts (pollGenerationStatus taskId sel outcome explOutcome s) = alerts s"
    and "\<not> (ends_mp4 (video_url st) \<or> ends_mp4 (video_path st)) \<Longrightarrow> ends_json (video_path st) \<Longrightarrow>
           showVideoPlayer (pollGenerationStatus taskId sel outcome explOutcome s) = showVideoPlayer s
           \<and> showExplanationViewer (pollGenerationStatus taskId sel outcome explOutcome s)
               = (fetch_json explOutcome \<noteq> None \<or> showExplanationViewer s)
           \<and> alerts (pollGenerationStatus taskId sel outcome explOutcome s)
               = (if fetch_json explOutcome \<noteq> None then alerts s
                  else alerts s @ [''Error loading explanation''])"
    and "\<not> (ends_mp4 (video_url st) \<or> ends_mp4 (video_path st)) \<Longrightarrow> \<not> ends_json (video_path st) \<Longrightarrow>
           showVideoPlayer (pollGenerationStatus taskId sel outcome explOutcome s) = showVideoPlayer s
           \<and> showExplanationViewer (pollGenerationStatus taskId sel outcome explOutcome s)
               = showExplanationViewer s
           \<and> alerts (pollGenerationStatus taskId sel outcome explOutcome s) = alerts s"
  using c by (auto simp add: pollGenerationStatus_def r Let_def split: option.splits)

lemma poll_failed:
  assumes r: "checkStatus taskId outcome = Inr (JsonValue st)"
    and c: "status st = Some ''failed''"
  shows "\<not> isGenerating (pollGenerationStatus taskId sel outcome explOutcome s)
    \<and> genTimers (pollGenerationStatus taskId sel outcome explOutcome s) = genTimers s
    \<and> alerts (pollGenerationStatus taskId sel outcome explOutcome s)
        = alerts s @ [''Generation failed: '' @ (case message st of None \<Rightarrow> ''undefined'' | Some m \<Rightarrow> m)]
    \<and> showVideoPlayer (pollGenerationStatus taskId sel outcome explOutcome s) = showVideoPlayer s
    \<and> showExplanationViewer (pollGenerationStatus taskId sel outcome explOutcome s)
        = showExplanationViewer s"
  using c by (simp add: pollGenerationStatus_def r Let_def)

lemma poll_generating:
  assumes r: "checkStatus taskId outcome = Inr (JsonValue st)"
    and c: "status st = Some ''generating''"
  shows "genTimers (pollGenerationStatus taskId sel outcome explOutcome s)
        = genTimers s @ [(2000, PollGenerationStatus taskId sel)]
    \<and> isGenerating (pollGenerationStatus taskId sel outcome explOutcome s) = isGenerating s
    \<and> alerts (pollGenerationStatus taskId sel outcome explOutcome s) = alerts s
    \<and> showVideoPlayer (pollGenerationStatus taskId sel outcome explOutcome s) = showVideoPlayer s
    \<and> showExplanationViewer (pollGenerationStatus taskId sel outcome explOutcome s)
        = showExplanationViewer s"
  using c by (simp add: pollGenerationStatus_def r Let_def)

lemma poll_unknown:
  assumes r: "checkStatus taskId outcome = Inr (JsonValue st)"
    and c: "\<not> (status st = Some ''completed'' \<and> (truthy (video_url st) \<or> truthy (video_path st)))"
       "status st \<noteq> Some ''failed''" "status st \<noteq> Some ''generating''"
  shows "\<not> isGenerating (pollGenerationStatus taskId sel outcome explOutcome s)
    \<and> genTimers (pollGenerationStatus taskId sel outcome explOutcome s) = genTimers s
    \<and> alerts (pollGenerationStatus taskId sel outcome explOutcome s)
        = alerts s @ [''Unknown error occurred during generation'']
    \<and> showVideoPlayer (pollGenerationStatus taskId sel outcome explOutcome s) = showVideoPlayer s
    \<and> showExplanationViewer (pollGenerationStatus taskId sel outcome explOutcome s)
        = showExplanationViewer s"
proof -
  have n: "(status st = Some ''completed'' \<and> (truthy (video_url st) \<or> truthy (video_path st))) = False"
    using c(1) by simp
  show ?thesis using c(2,3) by (simp add: pollGenerationStatus_def r Let_def n)
qed


lemma poll_error:
  assumes "checkStatus taskId outcome = Inl e \<or> checkStatus taskId outcome = Inr JsonNull"
  shows "\<not> isGenerating (pollGenerationStatus taskId sel outcome explOutcome s)
    \<and> genTimers (pollGenerationStatus taskId sel outcome explOutcome s) = genTimers s
    \<and> alerts (pollGenerationStatus taskId sel outcome explOutcome s)
        = alerts s @ [''Error checking generation status'']
    \<and> showVideoPlayer (pollGenerationStatus taskId sel outcome explOutcome s) = showVideoPlayer s
    \<and> showExplanationViewer (pollGenerationStatus taskId sel outcome explOutcome s)
        = showExplanationViewer s"
  using assms by (auto simp add: pollGenerationStatus_def Let_def)

lemma trim_sample: "trim ''x^2'' = ''x^2''"
  by (simp add: trim_def is_space_def)

lemma started_generation_fields:
  "genTimers started_generation = [(2000, PollGenerationStatus ''t1'' ''x^2'')]"
  "statusChecks started_generation = [''t1'']"
  "isGenerating started_generation"
  "currentTaskId started_generation = Some ''t1''"
  "\<not> showVideoPlayer started_generation"
  "\<not> showExplanationViewer started_generation"
  by (simp_all add: started_generation_def handleVisualize_def generateVideo_def
        pollGenerationStatus_def checkStatus_def response_generating_def initial_gen_state_def
        trim_sample Let_def truthy_def)


lemma sample_responses:
  "checkStatus taskId response_generating = Inr (JsonValue
     \<lparr> status = Some ''generating'', progress = Some 40, message = Some ''Rendering scene'',
       video_url = None, video_path = None \<rparr>)"
  "checkStatus taskId response_completed_mp4 = Inr (JsonValue
     \<lparr> status = Some ''completed'', progress = Some 100, message = Some ''Done'',
       video_url = Some ''/api/videos/scene.mp4'', video_path = None \<rparr>)"
  "checkStatus taskId response_completed_json_path = Inr (JsonValue
     \<lparr> status = Some ''completed'', progress = Some 100, message = Some ''Done'',
       video_url = None, video_path = Some ''media/explanation.json'' \<rparr>)"
  by (simp_all add: checkStatus_def response_generating_def response_completed_mp4_def
        response_completed_json_path_def)

lemma show_nat_404: "show_nat 404 = ''404''"
  by code_simp

lemma sample_not_found:
  "checkStatus ''t1'' response_not_found = Inl (JsError ''Error''
     ''HTTP error! status: 404 for URL: http://localhost:5000/api/video-status/t1'')"
  by (simp add: checkStatus_def response_not_found_def API_BASE_URL_def show_nat_404
        del: show_nat.simps)

lemma sample_suffixes:
  "ends_mp4 (Some ''/api/videos/scene.mp4'')"
  "\<not> ends_mp4 (Some ''media/explanation.json'')"
  "ends_json (Some ''media/explanation.json'')"
  "\<not> ends_mp4 None" "\<not> ends_json None"
  by (simp_all add: ends_mp4_def ends_json_def endsWith_def)

lemma sample_explanations:
  "fetch_json explanation_ok \<noteq> None" "fetch_json explanation_unreachable = None"
  by (simp_all add: fetch_json_def explanation_ok_def explanation_unreachable_def)

lemma started_generation_alerts: "alerts started_generation = []"
  by (simp add: started_generation_def handleVisualize_def generateVideo_def
        pollGenerationStatus_def checkStatus_def response_generating_def initial_gen_state_def
        trim_sample Let_def truthy_def)

text \<open>
  Claim C2, as amended. \<open>pollGenerationStatus\<close> takes exactly one of five steps on every
  answer to its status request. If the request is rejected, the response is not ok, or its
  body cannot be parsed or is \<open>null\<close>, it schedules no further poll, clears \<open>isGenerating\<close>
  and reports an error checking the status. Otherwise the answer is a status object. If its
  status is \<open>completed\<close> and a non-empty \<open>video_url\<close> or \<open>video_path\<close> is present, it
  schedules no further poll and clears \<open>isGenerating\<close>; then it shows the video player when
  \<open>video_url\<close> or \<open>video_path\<close> ends in \<open>.mp4\<close>; otherwise, when \<open>video_path\<close> ends in
  \<open>.json\<close>, it requests the explanation and shows the explanation viewer if that request
  succeeds, and reports an error loading the explanation if it does not; when neither field
  ends in \<open>.mp4\<close> or in \<open>.json\<close> it displays nothing. If the status is \<open>failed\<close>, it
  schedules no further poll, clears \<open>isGenerating\<close> and reports the failure. If the status
  is \<open>generating\<close>, it schedules exactly one further poll after 2000 ms and leaves
  \<open>isGenerating\<close> as it is. For every other status object, \<open>completed\<close> without a
  \<open>video_url\<close> or \<open>video_path\<close> included, it schedules no further poll, clears
  \<open>isGenerating\<close> and reports an unknown error.
\<close>

theorem poll_response_takes_one_step:
  assumes "s' = pollGenerationStatus taskId sel outcome explOutcome s"
  shows
   "((\<exists>e. checkStatus taskId outcome = Inl e) \<or> checkStatus taskId outcome = Inr JsonNull \<longrightarrow>
        \<not> isGenerating s' \<and> genTimers s' = genTimers s
        \<and> alerts s' = alerts s @ [''Error checking generation status'']
        \<and> showVideoPlayer s' = showVideoPlayer s
        \<and> showExplanationViewer s' = showExplanationViewer s)
    \<and> (\<forall>st. checkStatus taskId outcome = Inr (JsonValue st) \<longrightarrow>
      (status st = Some ''completed'' \<and> (truthy (video_url st) \<or> truthy (video_path st)) \<longrightarrow>
        \<not> isGenerating s' \<and> genTimers s' = genTimers s
        \<and> (ends_mp4 (video_url st) \<or> ends_mp4 (video_path st) \<longrightarrow>
              showVideoPlayer s' \<and> showExplanationViewer s' = showExplanationViewer s
              \<and> alerts s' = alerts s)
        \<and> (\<not> ends_mp4 (video_url st) \<and> \<not> ends_mp4 (video_path st)
              \<and> ends_json (video_path st) \<longrightarrow>
              showVideoPlayer s' = showVideoPlayer s
              \<and> (fetch_json explOutcome \<noteq> None \<longrightarrow>
                    showExplanationViewer s' \<and> alerts s' = alerts s)
              \<and> (fetch_json explOutcome = None \<longrightarrow>
                    showExplanationViewer s' = showExplanationViewer s
                    \<and> alerts s' = alerts s @ [''Error loading explanation'']))
        \<and> (\<not> ends_mp4 (video_url st) \<and> \<not> ends_mp4 (video_path st)
              \<and> \<not> ends_json (video_url st) \<and> \<not> ends_json (video_path st) \<longrightarrow>
              showVideoPlayer s' = showVideoPlayer s
              \<and> showExplanationViewer s' = showExplanationViewer s
              \<and> alerts s' = alerts s))
      \<and> (status st = Some ''failed'' \<longrightarrow>
        \<not> isGenerating s' \<and> genTimers s' = genTimers s
        \<and> alerts s' = alerts s @ [''Generation failed: '' @
              (case message st of None \<Rightarrow> ''undefined'' | Some m \<Rightarrow> m)]
        \<and> showVideoPlayer s' = showVideoPlayer s
        \<and> showExplanationViewer s' = showExplanationViewer s)
      \<and> (status st = Some ''generating'' \<longrightarrow>
        genTimers s' = genTimers s @ [(2000, PollGenerationStatus taskId sel)]
        \<and> isGenerating s' = isGenerating s \<and> alerts s' = alerts s
        \<and> showVideoPlayer s' = showVideoPlayer s
        \<and> showExplanationViewer s' = showExplanationViewer s)
      \<and> (\<not> (status st = Some ''completed'' \<and> (truthy (video_url st) \<or> truthy (video_path st)))
        \<and> status st \<noteq> Some ''failed'' \<and> status st \<noteq> Some ''generating'' \<longrightarrow>
        \<not> isGenerating s' \<and> genTimers s' = genTimers s
        \<and> alerts s' = alerts s @ [''Unknown error occurred during generation'']
        \<and> showVideoPlayer s' = showVideoPlayer s
        \<and> showExplanationViewer s' = showExplanationViewer s))"
proof -
  have V: "(\<exists>e. checkStatus taskId outcome = Inl e) \<or> checkStatus taskId outcome = Inr JsonNull \<longrightarrow>
        \<not> isGenerating s' \<and> genTimers s' = genTimers s
        \<and> alerts s' = alerts s @ [''Error checking generation status'']
        \<and> showVideoPlayer s' = showVideoPlayer s
        \<and> showExplanationViewer s' = showExplanationViewer s"
  proof (intro impI)
    assume "(\<exists>e. checkStatus taskId outcome = Inl e) \<or> checkStatus taskId outcome = Inr JsonNull"
    then obtain e where
      "checkStatus taskId outcome = Inl e \<or> checkStatus taskId outcome = Inr JsonNull"
      by blast
    from poll_error[OF this, of sel explOutcome s, folded assms]
    show "\<not> isGenerating s' \<and> genTimers s' = genTimers s
        \<and> alerts s' = alerts s @ [''Error checking generation status'']
        \<and> showVideoPlayer s' = showVideoPlayer s
        \<and> showExplanationViewer s' = showExplanationViewer s" .
  qed
  have R: "(status st = Some ''completed'' \<and> (truthy (video_url st) \<or> truthy (video_path st)) \<longrightarrow>
        \<not> isGenerating s' \<and> genTimers s' = genTimers s
        \<and> (ends_mp4 (video_url st) \<or> ends_mp4 (video_path st) \<longrightarrow>
              showVideoPlayer s' \<and> showExplanationViewer s' = showExplanationViewer s
              \<and> alerts s' = alerts s)
        \<and> (\<not> ends_mp4 (video_url st) \<and> \<not> ends_mp4 (video_path st)
              \<and> ends_json (video_path st) \<longrightarrow>
              showVideoPlayer s' = showVideoPlayer s
              \<and> (fetch_json explOutcome \<noteq> None \<longrightarrow>
                    showExplanationViewer s' \<and> alerts s' = alerts s)
              \<and> (fetch_json explOutcome = None \<longrightarrow>
                    showExplanationViewer s' = showExplanationViewer s
                    \<and> alerts s' = alerts s @ [''Error loading explanation'']))
        \<and> (\<not> ends_mp4 (video_url st) \<and> \<not> ends_mp4 (video_path st)
              \<and> \<not> ends_json (video_url st) \<and> \<not> ends_json (video_path st) \<longrightarrow>
              showVideoPlayer s' = showVideoPlayer s
              \<and> showExplanationViewer s' = showExplanationViewer s
              \<and> alerts s' = alerts s))
      \<and> (status st = Some ''failed'' \<longrightarrow>
        \<not> isGenerating s' \<and> genTimers s' = genTimers s
        \<and> alerts s' = alerts s @ [''Generation failed: '' @
              (case message st of None \<Rightarrow> ''undefined'' | Some m \<Rightarrow> m)]
        \<and> showVideoPlayer s' = showVideoPlayer s
        \<and> showExplanationViewer s' = showExplanationViewer s)
      \<and> (status st = Some ''generating'' \<longrightarrow>
        genTimers s' = genTimers s @ [(2000, PollGenerationStatus taskId sel)]
        \<and> isGenerating s' = isGenerating s \<and> alerts s' = alerts s
        \<and> showVideoPlayer s' = showVideoPlayer s
        \<and> showExplanationViewer s' = showExplanationViewer s)
      \<and> (\<not> (status st = Some ''completed'' \<and> (truthy (video_url st) \<or> truthy (video_path st)))
        \<and> status st \<noteq> Some ''failed'' \<and> status st \<noteq> Some ''generating'' \<longrightarrow>
        \<not> isGenerating s' \<and> genTimers s' = genTimers s
        \<and> alerts s' = alerts s @ [''Unknown error occurred during generation'']
        \<and> showVideoPlayer s' = showVideoPlayer s
        \<and> showExplanationViewer s' = showExplanationViewer s)"
    if r: "checkStatus taskId outcome = Inr (JsonValue st)" for st
  proof -
    have I: "status st = Some ''completed'' \<and> (truthy (video_url st) \<or> truthy (video_path st)) \<longrightarrow>
        \<not> isGenerating s' \<and> genTimers s' = genTimers s
        \<and> (ends_mp4 (video_url st) \<or> ends_mp4 (video_path st) \<longrightarrow>
              showVideoPlayer s' \<and> showExplanationViewer s' = showExplanationViewer s
              \<and> alerts s' = alerts s)
        \<and> (\<not> ends_mp4 (video_url st) \<and> \<not> ends_mp4 (video_path st)
              \<and> ends_json (video_path st) \<longrightarrow>
              showVideoPlayer s' = showVideoPlayer s
              \<and> (fetch_json explOutcome \<noteq> None \<longrightarrow>
                    showExplanationViewer s' \<and> alerts s' = alerts s)
              \<and> (fetch_json explOutcome = None \<longrightarrow>
                    showExplanationViewer s' = showExplanationViewer s
                    \<and> alerts s' = alerts s @ [''Error loading explanation'']))
        \<and> (\<not> ends_mp4 (video_url st) \<and> \<not> ends_mp4 (video_path st)
              \<and> \<not> ends_json (video_url st) \<and> \<not> ends_json (video_path st) \<longrightarrow>
              showVideoPlayer s' = showVideoPlayer s
              \<and> showExplanationViewer s' = showExplanationViewer s
              \<and> alerts s' = alerts s)"
    proof (intro impI)
      assume "status st = Some ''completed'' \<and> (truthy (video_url st) \<or> truthy (video_path st))"
      then have c: "status st = Some ''completed''"
        "truthy (video_url st) \<or> truthy (video_path st)" by simp_all
      note C = poll_completed[OF r c, of sel explOutcome s, folded assms]
      have a: "\<not> isGenerating s' \<and> genTimers s' = genTimers s" using C(1,2) by simp
      have b: "ends_mp4 (video_url st) \<or> ends_mp4 (video_path st) \<longrightarrow>
              showVideoPlayer s' \<and> showExplanationViewer s' = showExplanationViewer s
              \<and> alerts s' = alerts s"
        using C(3) by (rule impI)
      have d: "\<not> ends_mp4 (video_url st) \<and> \<not> ends_mp4 (video_path st)
              \<and> ends_json (video_path st) \<longrightarrow>
              showVideoPlayer s' = showVideoPlayer s
              \<and> (fetch_json explOutcome \<noteq> None \<longrightarrow>
                    showExplanationViewer s' \<and> alerts s' = alerts s)
              \<and> (fetch_json explOutcome = None \<longrightarrow>
                    showExplanationViewer s' = showExplanationViewer s
                    \<and> alerts s' = alerts s @ [''Error loading explanation''])"
      proof (intro impI)
        assume h: "\<not> ends_mp4 (video_url st) \<and> \<not> ends_mp4 (video_path st) \<and> ends_json (video_path st)"
        then have "\<not> (ends_mp4 (video_url st) \<or> ends_mp4 (video_path st))"
          and "ends_json (video_path st)" by simp_all
        from C(4)[OF this] show "showVideoPlayer s' = showVideoPlayer s
              \<and> (fetch_json explOutcome \<noteq> None \<longrightarrow>
                    showExplanationViewer s' \<and> alerts s' = alerts s)
              \<and> (fetch_json explOutcome = None \<longrightarrow>
                    showExplanationViewer s' = showExplanationViewer s
                    \<and> alerts s' = alerts s @ [''Error loading explanation''])"
          by simp
      qed
      have e: "\<not> ends_mp4 (video_url st) \<and> \<not> ends_mp4 (video_path st)
              \<and> \<not> ends_json (video_url st) \<and> \<not> ends_json (video_path st) \<longrightarrow>
              showVideoPlayer s' = showVideoPlayer s
              \<and> showExplanationViewer s' = showExplanationViewer s
              \<and> alerts s' = alerts s"
      proof (intro impI)
        assume h: "\<not> ends_mp4 (video_url st) \<and> \<not> ends_mp4 (video_path st)
              \<and> \<not> ends_json (video_url st) \<and> \<not> ends_json (video_path st)"
        then have "\<not> (ends_mp4 (video_url st) \<or> ends_mp4 (video_path st))"
          and "\<not> ends_json (video_path st)" by simp_all
        from C(5)[OF this] show "showVideoPlayer s' = showVideoPlayer s
              \<and> showExplanationViewer s' = showExplanationViewer s
              \<and> alerts s' = alerts s" .
      qed
      from a show "        \<not> isGenerating s' \<and> genTimers s' = genTimers s
        \<and> (ends_mp4 (video_url st) \<or> ends_mp4 (video_path st) \<longrightarrow>
              showVideoPlayer s' \<and> showExplanationViewer s' = showExplanationViewer s
              \<and> alerts s' = alerts s)
        \<and> (\<not> ends_mp4 (video_url st) \<and> \<not> ends_mp4 (video_path st)
              \<and> ends_json (video_path st) \<longrightarrow>
              showVideoPlayer s' = showVideoPlayer s
              \<and> (fetch_json explOutcome \<noteq> None \<longrightarrow>
                    showExplanationViewer s' \<and> alerts s' = alerts s)
              \<and> (fetch_json explOutcome = None \<longrightarrow>
                    showExplanationViewer s' = showExplanationViewer s
                    \<and> alerts s' = alerts s @ [''Error loading explanation'']))
        \<and> (\<not> ends_mp4 (video_url st) \<and> \<not> ends_mp4 (video_path st)
              \<and> \<not> ends_json (video_url st) \<and> \<not> ends_json (video_path st) \<longrightarrow>
              showVideoPlayer s' = showVideoPlayer s
              \<and> showExplanationViewer s' = showExplanationViewer s
              \<and> alerts s' = alerts s)"
        using b d e by (intro conjI) (erule conjunct1, erule conjunct2, assumption+)
    qed
    have II: "status st = Some ''failed'' \<longrightarrow>
        \<not> isGenerating s' \<and> genTimers s' = genTimers s
        \<and> alerts s' = alerts s @ [''Generation failed: '' @
              (case message st of None \<Rightarrow> ''undefined'' | Some m \<Rightarrow> m)]
        \<and> showVideoPlayer s' = showVideoPlayer s
        \<and> showExplanationViewer s' = showExplanationViewer s"
      using poll_failed[OF r, of sel explOutcome s, folded assms] by (rule impI)
    have III: "status st = Some ''generating'' \<longrightarrow>
        genTimers s' = genTimers s @ [(2000, PollGenerationStatus taskId sel)]
        \<and> isGenerating s' = isGenerating s \<and> alerts s' = alerts s
        \<and> showVideoPlayer s' = showVideoPlayer s
        \<and> showExplanationViewer s' = showExplanationViewer s"
      using poll_generating[OF r, of sel explOutcome s, folded assms] by (rule impI)
    have IV: "\<not> (status st = Some ''completed'' \<and> (truthy (video_url st) \<or> truthy (video_path st)))
        \<and> status st \<noteq> Some ''failed'' \<and> status st \<noteq> Some ''generating'' \<longrightarrow>
        \<not> isGenerating s' \<and> genTimers s' = genTimers s
        \<and> alerts s' = alerts s @ [''Unknown error occurred during generation'']
        \<and> showVideoPlayer s' = showVideoPlayer s
        \<and> showExplanationViewer s' = showExplanationViewer s"
    proof (intro impI)
      assume h: "\<not> (status st = Some ''completed'' \<and> (truthy (video_url st) \<or> truthy (video_path st)))
        \<and> status st \<noteq> Some ''failed'' \<and> status st \<noteq> Some ''generating''"
      show "\<not> isGenerating s' \<and> genTimers s' = genTimers s
        \<and> alerts s' = alerts s @ [''Unknown error occurred during generation'']
        \<and> showVideoPlayer s' = showVideoPlayer s
        \<and> showExplanationViewer s' = showExplanationViewer s"
        by (rule poll_unknown[OF r conjunct1[OF h] conjunct1[OF conjunct2[OF h]]
              conjunct2[OF conjunct2[OF h]], of sel explOutcome s, folded assms])
    qed
    show ?thesis by (rule conjI[OF I conjI[OF II conjI[OF III IV]]])
  qed
  have R': "\<forall>st. checkStatus taskId outcome = Inr (JsonValue st) \<longrightarrow>
      (status st = Some ''completed'' \<and> (truthy (video_url st) \<or> truthy (video_path st)) \<longrightarrow>
        \<not> isGenerating s' \<and> genTimers s' = genTimers s
        \<and> (ends_mp4 (video_url st) \<or> ends_mp4 (video_path st) \<longrightarrow>
              showVideoPlayer s' \<and> showExplanationViewer s' = showExplanationViewer s
              \<and> alerts s' = alerts s)
        \<and> (\<not> ends_mp4 (video_url st) \<and> \<not> ends_mp4 (video_path st)
              \<and> ends_json (video_path st) \<longrightarrow>
              showVideoPlayer s' = showVideoPlayer s
              \<and> (fetch_json explOutcome \<noteq> None \<longrightarrow>
                    showExplanationViewer s' \<and> alerts s' = alerts s)
              \<and> (fetch_json explOutcome = None \<longrightarrow>
                    showExplanationViewer s' = showExplanationViewer s
                    \<and> alerts s' = alerts s @ [''Error loading explanation'']))
        \<and> (\<not> ends_mp4 (video_url st) \<and> \<not> ends_mp4 (video_path st)
              \<and> \<not> ends_json (video_url st) \<and> \<not> ends_json (video_path st) \<longrightarrow>
              showVideoPlayer s' = showVideoPlayer s
              \<and> showExplanationViewer s' = showExplanationViewer s
              \<and> alerts s' = alerts s))
      \<and> (status st = Some ''failed'' \<longrightarrow>
        \<not> isGenerating s' \<and> genTimers s' = genTimers s
        \<and> alerts s' = alerts s @ [''Generation failed: '' @
              (case message st of None \<Rightarrow> ''undefined'' | Some m \<Rightarrow> m)]
        \<and> showVideoPlayer s' = showVideoPlayer s
        \<and> showExplanationViewer s' = showExplanationViewer s)
      \<and> (status st = Some ''generating'' \<longrightarrow>
        genTimers s' = genTimers s @ [(2000, PollGenerationStatus taskId sel)]
        \<and> isGenerating s' = isGenerating s \<and> alerts s' = alerts s
        \<and> showVideoPlayer s' = showVideoPlayer s
        \<and> showExplanationViewer s' = showExplanationViewer s)
      \<and> (\<not> (status st = Some ''completed'' \<and> (truthy (video_url st) \<or> truthy (video_path st)))
        \<and> status st \<noteq> Some ''failed'' \<and> status st \<noteq> Some ''generating'' \<longrightarrow>
        \<not> isGenerating s' \<and> genTimers s' = genTimers s
        \<and> alerts s' = alerts s @ [''Unknown error occurred during generation'']
        \<and> showVideoPlayer s' = showVideoPlayer s
        \<and> showExplanationViewer s' = showExplanationViewer s)"
    using R by (intro allI impI)
  show ?thesis by (rule conjI[OF V R'])
qed

theorem poll_response_takes_one_step_witness:
  "checkStatus ''t1'' response_not_found = Inl (JsError ''Error''
       ''HTTP error! status: 404 for URL: http://localhost:5000/api/video-status/t1'')
   \<and> \<not> isGenerating (pollGenerationStatus ''t1'' ''x^2'' response_not_found
        explanation_unreachable started_generation)
   \<and> genTimers (pollGenerationStatus ''t1'' ''x^2'' response_not_found
        explanation_unreachable started_generation) = genTimers started_generation
   \<and> alerts (pollGenerationStatus ''t1'' ''x^2'' response_not_found
        explanation_unreachable started_generation) = [''Error checking generation status'']
   \<and> checkStatus ''t1'' response_generating = Inr (JsonValue
     \<lparr> status = Some ''generating'', progress = Some 40, message = Some ''Rendering scene'',
       video_url = None, video_path = None \<rparr>)
   \<and> genTimers (pollGenerationStatus ''t1'' ''x^2'' response_generating
        explanation_unreachable started_generation)
       = genTimers started_generation @ [(2000, PollGenerationStatus ''t1'' ''x^2'')]
   \<and> isGenerating (pollGenerationStatus ''t1'' ''x^2'' response_generating
        explanation_unreachable started_generation)
   \<and> checkStatus ''t1'' response_completed_mp4 = Inr (JsonValue
     \<lparr> status = Some ''completed'', progress = Some 100, message = Some ''Done'',
       video_url = Some ''/api/videos/scene.mp4'', video_path = None \<rparr>)
   \<and> \<not> isGenerating (pollGenerationStatus ''t1'' ''x^2'' response_completed_mp4
        explanation_unreachable started_generation)
   \<and> genTimers (pollGenerationStatus ''t1'' ''x^2'' response_completed_mp4
        explanation_unreachable started_generation) = genTimers started_generation
   \<and> showVideoPlayer (pollGenerationStatus ''t1'' ''x^2'' response_completed_mp4
        explanation_unreachable started_generation)
   \<and> checkStatus ''t1'' response_completed_json_path = Inr (JsonValue
     \<lparr> status = Some ''completed'', progress = Some 100, message = Some ''Done'',
       video_url = None, video_path = Some ''media/explanation.json'' \<rparr>)
   \<and> fetch_json explanation_ok \<noteq> None
   \<and> showExplanationViewer (pollGenerationStatus ''t1'' ''x^2'' response_completed_json_path
        explanation_ok started_generation)
   \<and> alerts (pollGenerationStatus ''t1'' ''x^2'' response_completed_json_path
        explanation_ok started_generation) = []"
proof -
  let ?gen = "\<lparr> status = Some ''generating'', progress = Some 40, message = Some ''Rendering scene'',
       video_url = None, video_path = None \<rparr>"
  let ?mp4 = "\<lparr> status = Some ''completed'', progress = Some 100, message = Some ''Done'',
       video_url = Some ''/api/videos/scene.mp4'', video_path = None \<rparr>"
  let ?js = "\<lparr> status = Some ''completed'', progress = Some 100, message = Some ''Done'',
       video_url = None, video_path = Some ''media/explanation.json'' \<rparr>"
  note A = conjunct1[OF poll_response_takes_one_step[OF refl, of "''t1''" response_not_found
      "''x^2''" explanation_unreachable started_generation]]
  have a: "\<not> isGenerating (pollGenerationStatus ''t1'' ''x^2'' response_not_found
        explanation_unreachable started_generation)
      \<and> genTimers (pollGenerationStatus ''t1'' ''x^2'' response_not_found
        explanation_unreachable started_generation) = genTimers started_generation
      \<and> alerts (pollGenerationStatus ''t1'' ''x^2'' response_not_found
        explanation_unreachable started_generation) = alerts started_generation @ [''Error checking generation status'']"
    using mp[OF A] by (simp add: sample_not_found)
  note B = mp[OF spec[OF conjunct2[OF poll_response_takes_one_step[OF refl, of "''t1''"
      response_generating "''x^2''" explanation_unreachable started_generation]], of ?gen]
      sample_responses(1)]
  have b: "genTimers (pollGenerationStatus ''t1'' ''x^2'' response_generating
        explanation_unreachable started_generation)
       = genTimers started_generation @ [(2000, PollGenerationStatus ''t1'' ''x^2'')]
      \<and> isGenerating (pollGenerationStatus ''t1'' ''x^2'' response_generating
        explanation_unreachable started_generation) = isGenerating started_generation"
    using mp[OF conjunct1[OF conjunct2[OF conjunct2[OF B]]]] by simp
  note C = mp[OF spec[OF conjunct2[OF poll_response_takes_one_step[OF refl, of "''t1''"
      response_completed_mp4 "''x^2''" explanation_unreachable started_generation]], of ?mp4]
      sample_responses(2)]
  have c: "\<not> isGenerating (pollGenerationStatus ''t1'' ''x^2'' response_completed_mp4
        explanation_unreachable started_generation)
      \<and> genTimers (pollGenerationStatus ''t1'' ''x^2'' response_completed_mp4
        explanation_unreachable started_generation) = genTimers started_generation
      \<and> showVideoPlayer (pollGenerationStatus ''t1'' ''x^2'' response_completed_mp4
        explanation_unreachable started_generation)"
    using mp[OF conjunct1[OF C]] by (simp add: truthy_def sample_suffixes)
  note D = mp[OF spec[OF conjunct2[OF poll_response_takes_one_step[OF refl, of "''t1''"
      response_completed_json_path "''x^2''" explanation_ok started_generation]], of ?js]
      sample_responses(3)]
  have d: "showExplanationViewer (pollGenerationStatus ''t1'' ''x^2'' response_completed_json_path
        explanation_ok started_generation)
      \<and> alerts (pollGenerationStatus ''t1'' ''x^2'' response_completed_json_path
        explanation_ok started_generation) = alerts started_generation"
    using mp[OF conjunct1[OF D]] by (simp add: truthy_def sample_suffixes sample_explanations)
  show ?thesis
    using a b c d
    by (simp add: sample_not_found sample_responses sample_explanations
          started_generation_fields started_generation_alerts)
qed

text \<open>
  Claim C2 as stated knows four steps, and a \<open>completed\<close> answer with a \<open>video_url\<close> or
  \<open>video_path\<close> always displays the artifact. An answer whose \<open>video_path\<close> ends in \<open>.json\<close>
  displays nothing but an error alert when the request for the explanation fails; and when
  the backend answers the status request with 404, the poll takes none of the four steps:
  it stops and reports an error checking the status.
\<close>

theorem poll_error_steps_counterexample:
  "\<not> isGenerating (pollGenerationStatus ''t1'' ''x^2'' response_completed_json_path
        explanation_unreachable started_generation)
   \<and> \<not> showVideoPlayer (pollGenerationStatus ''t1'' ''x^2'' response_completed_json_path
        explanation_unreachable started_generation)
   \<and> \<not> showExplanationViewer (pollGenerationStatus ''t1'' ''x^2'' response_completed_json_path
        explanation_unreachable started_generation)
   \<and> alerts (pollGenerationStatus ''t1'' ''x^2'' response_completed_json_path
        explanation_unreachable started_generation) = [''Error loading explanation'']
   \<and> \<not> isGenerating (pollGenerationStatus ''t1'' ''x^2'' response_not_found
        explanation_unreachable started_generation)
   \<and> genTimers (pollGenerationStatus ''t1'' ''x^2'' response_not_found
        explanation_unreachable started_generation) = genTimers started_generation
   \<and> alerts (pollGenerationStatus ''t1'' ''x^2'' response_not_found
        explanation_unreachable started_generation) = [''Error checking generation status'']"
proof -
  have c: "status \<lparr> status = Some ''completed'', progress = Some 100, message = Some ''Done'',
       video_url = None, video_path = Some ''media/explanation.json'' \<rparr> = Some ''completed''"
    "truthy (video_url \<lparr> status = Some ''completed'', progress = Some 100, message = Some ''Done'',
       video_url = None, video_path = Some ''media/explanation.json'' \<rparr>)
      \<or> truthy (video_path \<lparr> status = Some ''completed'', progress = Some 100, message = Some ''Done'',
       video_url = None, video_path = Some ''media/explanation.json'' \<rparr>)"
    by (simp_all add: truthy_def)
  have g: "\<not> isGenerating (pollGenerationStatus ''t1'' ''x^2'' response_completed_json_path
        explanation_unreachable started_generation)"
    by (rule poll_completed(1)[OF sample_responses(3) c])
  have b: "showVideoPlayer (pollGenerationStatus ''t1'' ''x^2'' response_completed_json_path
        explanation_unreachable started_generation) = showVideoPlayer started_generation
         \<and> showExplanationViewer (pollGenerationStatus ''t1'' ''x^2'' response_completed_json_path
        explanation_unreachable started_generation)
            = (fetch_json explanation_unreachable \<noteq> None \<or> showExplanationViewer started_generation)
         \<and> alerts (pollGenerationStatus ''t1'' ''x^2'' response_completed_json_path
        explanation_unreachable started_generation)
            = (if fetch_json explanation_unreachable \<noteq> None then alerts started_generation
               else alerts started_generation @ [''Error loading explanation''])"
    by (rule poll_completed(4)[OF sample_responses(3)])
       (simp_all add: truthy_def sample_suffixes)
  have e: "\<not> isGenerating (pollGenerationStatus ''t1'' ''x^2'' response_not_found
        explanation_unreachable started_generation)
      \<and> genTimers (pollGenerationStatus ''t1'' ''x^2'' response_not_found
        explanation_unreachable started_generation) = genTimers started_generation
      \<and> alerts (pollGenerationStatus ''t1'' ''x^2'' response_not_found
        explanation_unreachable started_generation) = alerts started_generation @ [''Error checking generation status'']
      \<and> showVideoPlayer (pollGenerationStatus ''t1'' ''x^2'' response_not_found
        explanation_unreachable started_generation) = showVideoPlayer started_generation
      \<and> showExplanationViewer (pollGenerationStatus ''t1'' ''x^2'' response_not_found
        explanation_unreachable started_generation) = showExplanationViewer started_generation"
    by (rule poll_error[of "''t1''" response_not_found
          "JsError ''Error'' ''HTTP error! status: 404 for URL: http://localhost:5000/api/video-status/t1''"])
       (simp add: sample_not_found)
  show ?thesis using g b e
    by (simp add: started_generation_fields started_generation_alerts sample_explanations)
qed


section \<open>Properties of OCR extraction\<close>

text \<open>The decimal rendering of a number is injective and contains no hyphen.\<close>

declare show_nat.simps [simp del]

lemma digit_char_code: "d < 10 \<Longrightarrow> (of_char (digit_char d) :: nat) = 48 + d"
  by (simp add: digit_char_def)

lemma digit_char_inj: "a < 10 \<Longrightarrow> b < 10 \<Longrightarrow> digit_char a = digit_char b \<Longrightarrow> a = b"
proof -
  assume a: "a < 10" and b: "b < 10" and eq: "digit_char a = digit_char b"
  have "(of_char (digit_char a) :: nat) = of_char (digit_char b)" using eq by simp
  then show "a = b" using digit_char_code[OF a] digit_char_code[OF b] by simp
qed

lemma digit_char_not_dash: "d < 10 \<Longrightarrow> digit_char d \<noteq> CHR ''-''"
proof
  assume d: "d < 10" and eq: "digit_char d = CHR ''-''"
  have "(of_char (digit_char d) :: nat) = of_char CHR ''-''" using eq by simp
  then show False using digit_char_code[OF d] by simp
qed

lemma show_nat_nonempty: "show_nat n \<noteq> []"
  by (subst show_nat.simps) simp

lemma show_nat_no_dash: "CHR ''-'' \<notin> set (show_nat n)"
proof (induction n rule: show_nat.induct)
  case (1 n)
  show ?case
  proof (cases "n < 10")
    case True
    then show ?thesis using digit_char_not_dash[of n] by (subst show_nat.simps) auto
  next
    case False
    then show ?thesis using 1 digit_char_not_dash[of "n mod 10"]
      by (subst show_nat.simps) auto
  qed
qed

lemma show_nat_inj: "show_nat n = show_nat m \<Longrightarrow> n = m"
proof (induction n arbitrary: m rule: show_nat.induct)
  case (1 n)
  have sn: "show_nat n = (if n < 10 then [digit_char n]
                          else show_nat (n div 10) @ [digit_char (n mod 10)])"
    by (rule show_nat.simps)
  have sm: "show_nat m = (if m < 10 then [digit_char m]
                          else show_nat (m div 10) @ [digit_char (m mod 10)])"
    by (rule show_nat.simps)
  show ?case
  proof (cases "n < 10")
    case n: True
    show ?thesis
    proof (cases "m < 10")
      case True
      then show ?thesis using n 1(2) sn sm digit_char_inj by simp
    next
      case False
      then show ?thesis using n 1(2) sn sm show_nat_nonempty[of "m div 10"] by simp
    qed
  next
    case n: False
    show ?thesis
    proof (cases "m < 10")
      case True
      then show ?thesis using n 1(2) sn sm show_nat_nonempty[of "n div 10"] by simp
    next
      case False
      have eq: "show_nat (n div 10) = show_nat (m div 10)"
        and dg: "digit_char (n mod 10) = digit_char (m mod 10)"
        using n False 1(2) sn sm by simp_all
      have "n div 10 = m div 10" using 1(1)[OF n eq] .
      moreover have "n mod 10 = m mod 10" using dg by (intro digit_char_inj) simp_all
      moreover have "n = 10 * (n div 10) + n mod 10" "m = 10 * (m div 10) + m mod 10"
        by simp_all
      ultimately show ?thesis by simp
    qed
  qed
qed

lemma dash_split_unique:
  "CHR ''-'' \<notin> set a \<Longrightarrow> CHR ''-'' \<notin> set a' \<Longrightarrow>
     a @ CHR ''-'' # b = a' @ CHR ''-'' # b' \<Longrightarrow> a = a' \<and> b = b'"
proof (induction a arbitrary: a')
  case Nil
  then show ?case by (cases a') auto
next
  case (Cons x a)
  then show ?case by (cases a') auto
qed

lemma result_id_inj:
  assumes "''ocr-'' @ show_nat t @ ''-'' @ show_nat i = ''ocr-'' @ show_nat t' @ ''-'' @ show_nat j"
  shows "i = j"
proof -
  have "show_nat t @ CHR ''-'' # show_nat i = show_nat t' @ CHR ''-'' # show_nat j"
    using assms by simp
  then have "show_nat i = show_nat j"
    using dash_split_unique[OF show_nat_no_dash show_nat_no_dash] by blast
  then show ?thesis by (rule show_nat_inj)
qed

lemma newOcrResults_ids:
  "map result_id (newOcrResults nowAt center sel fs)
     = map (\<lambda>i. ''ocr-'' @ show_nat (nowAt i) @ ''-'' @ show_nat i) [0..<length fs]"
proof -
  let ?idf = "\<lambda>i. ''ocr-'' @ show_nat (nowAt i) @ ''-'' @ show_nat i"
  have "map result_id (newOcrResults nowAt center sel fs)
          = map (\<lambda>p. ?idf (fst p)) (enumerate 0 fs)"
    by (simp add: newOcrResults_def make_ocr_result_def split_def)
  also have "\<dots> = map ?idf (map fst (enumerate 0 fs))"
    by (simp only: map_map comp_def)
  also have "\<dots> = map ?idf [0..<length fs]"
    by (simp only: map_fst_enumerate) simp
  finally show ?thesis .
qed

lemma newOcrResults_length: "length (newOcrResults nowAt center sel fs) = length fs"
  by (simp add: newOcrResults_def)

lemma newOcrResults_distinct: "distinct_ids (newOcrResults nowAt center sel fs)"
proof -
  have "inj_on (\<lambda>i. ''ocr-'' @ show_nat (nowAt i) @ ''-'' @ show_nat i) (set [0..<length fs])"
    by (rule inj_onI) (rule result_id_inj)
  then show ?thesis
    unfolding distinct_ids_def newOcrResults_ids by (simp only: distinct_map distinct_upt)
qed

lemma resume_loading [simp]:
  "\<not> ocrLoading (performOcrExtraction_resume sel containerRect nowAt timeText answer s)"
  by (simp add: performOcrExtraction_resume_def Let_def)

lemma ocr_catch_fields:
  "ocrResults (ocr_catch e s) = ocrResults s"
  "error (ocr_catch e s) = Some \<lparr> error_message = ''OCR Processing Error'',
      suggestions = [if error_text e \<noteq> [] then error_text e
                     else ''Failed to communicate with OCR service'',
                     ''Check that the backend is running'',
                     ''Try again with a different selection''] \<rparr>"
  "showOcrPanel (ocr_catch e s) = showOcrPanel s"
  by (simp_all add: ocr_catch_def)

lemma resume_thrown:
  "ocrResults (performOcrExtraction_resume sel containerRect nowAt timeText (Inl e) s) = ocrResults s"
  "error (performOcrExtraction_resume sel containerRect nowAt timeText (Inl e) s)
     = error (ocr_catch e s)"
  by (simp_all add: performOcrExtraction_resume_def Let_def ocr_catch_def)

lemma resume_unsuccessful:
  assumes "\<not> success r"
  shows "ocrResults (performOcrExtraction_resume sel containerRect nowAt timeText
            (Inr (JsonValue r)) s) = ocrResults s"
    and "error (performOcrExtraction_resume sel containerRect nowAt timeText (Inr (JsonValue r)) s)
     = Some \<lparr> error_message = ''OCR Extraction Failed'',
           suggestions = [if truthy (response_error r) then the (response_error r)
                          else ''Unknown error occurred'',
                          ''Try selecting a clearer area'',
                          ''Ensure the image contains mathematical content''] \<rparr>"
  using assms by (simp_all add: performOcrExtraction_resume_def Let_def)

lemma resume_empty:
  assumes "success r" "\<not> hasFormulas r" "\<not> hasLatex r"
  shows "ocrResults (performOcrExtraction_resume sel containerRect nowAt timeText
            (Inr (JsonValue r)) s) = ocrResults s"
    and "error (performOcrExtraction_resume sel containerRect nowAt timeText (Inr (JsonValue r)) s)
     = Some \<lparr> error_message = ''No Mathematical Content Detected'',
           suggestions = [''The selected area may not contain clear mathematical notation'',
                          ''Try selecting a different area with equations or formulas'',
                          ''Ensure the image is not too blurry or small''] \<rparr>"
  using assms by (simp_all add: performOcrExtraction_resume_def Let_def)

lemma resume_object_first:
  assumes "success r" "hasFormulas r \<or> hasLatex r" "formulasArray r = FormulaObject l c ty # rest"
  shows "ocrResults (performOcrExtraction_resume sel containerRect nowAt timeText
            (Inr (JsonValue r)) s) = ocrResults s"
    and "error (performOcrExtraction_resume sel containerRect nowAt timeText (Inr (JsonValue r)) s)
     = error (ocr_catch (JsError ''TypeError'' ''formulasArray[0]?.substring is not a function'') s)"
    and "showOcrPanel (performOcrExtraction_resume sel containerRect nowAt timeText
            (Inr (JsonValue r)) s) = showOcrPanel s"
  using assms by (auto simp add: performOcrExtraction_resume_def Let_def ocr_catch_def)

lemma resume_string_first:
  assumes "success r" "hasFormulas r \<or> hasLatex r" "formulasArray r = FormulaString t # rest"
  shows "ocrResults (performOcrExtraction_resume sel containerRect nowAt timeText
            (Inr (JsonValue r)) s)
          = ocrResults s @ newOcrResults nowAt (selection_center containerRect sel) sel
                             (formulasArray r)"
    and "showOcrPanel (performOcrExtraction_resume sel containerRect nowAt timeText
            (Inr (JsonValue r)) s)"
    and "\<not> ocrPanelMinimized (performOcrExtraction_resume sel containerRect nowAt timeText
            (Inr (JsonValue r)) s)"
    and "latestOcrResult (performOcrExtraction_resume sel containerRect nowAt timeText
            (Inr (JsonValue r)) s)
          = Some \<lparr> latest_latex = FormulaString t, latest_timestamp = timeText,
                   latest_confidence = confidence r, rawResult = raw_result r \<rparr>"
  using assms by (auto simp add: performOcrExtraction_resume_def Let_def)

text \<open>
  When the first formula of a successful answer is a string, its \<open>n\<close> formulas give \<open>n\<close> new
  results with pairwise distinct ids behind the existing ones, and the panel opens,
  un-minimized, on the first formula.
\<close>

lemma ocr_success_appends:
  assumes "truthy (imageData sel)"
    and "extractContent outcome = Inr (JsonValue r)"
    and "success r" and "hasFormulas r \<or> hasLatex r"
    and "formulasArray r = FormulaString t # rest"
    and "s' = performOcrExtraction sel containerRect nowAt timeText outcome s"
  shows "\<exists>new. ocrResults s' = ocrResults s @ new \<and> length new = length (formulasArray r)
           \<and> distinct_ids new"
    and "showOcrPanel s' \<and> \<not> ocrPanelMinimized s'
         \<and> (\<exists>l. latestOcrResult s' = Some l \<and> latest_latex l = FormulaString t)"
proof -
  let ?s0 = "s\<lparr> ocrMode := False, ocrLoading := True \<rparr>"
  have s': "s' = performOcrExtraction_resume sel containerRect nowAt timeText
                   (Inr (JsonValue r)) ?s0"
    using assms(1,2,6) by (simp add: performOcrExtraction_def)
  note R = resume_string_first[OF assms(3,4,5), of sel containerRect nowAt timeText ?s0,
              folded s']
  show "\<exists>new. ocrResults s' = ocrResults s @ new \<and> length new = length (formulasArray r)
           \<and> distinct_ids new"
    using R(1) newOcrResults_length newOcrResults_distinct
    by (intro exI[of _ "newOcrResults nowAt (selection_center containerRect sel) sel
                          (formulasArray r)"]) simp
  show "showOcrPanel s' \<and> \<not> ocrPanelMinimized s'
         \<and> (\<exists>l. latestOcrResult s' = Some l \<and> latest_latex l = FormulaString t)"
    using R(2,3,4) by simp
qed

text \<open>
  Claim C7. Take a call of \<open>performOcrExtraction\<close> for a selection with image data. When
  it finishes, \<open>ocrLoading\<close> is false, whatever the outcome. If the request throws, or the
  answer has \<open>success\<close> false, or it lists no formula and no latex that is non-empty after
  trimming, then \<open>ocrResults\<close> is unchanged and an error with a message and three
  suggestions is set.
\<close>

theorem ocr_failure_leaves_results:
  assumes "truthy (imageData sel)"
    and "s' = performOcrExtraction sel containerRect nowAt timeText outcome s"
  shows "\<not> ocrLoading s'
    \<and> ((\<exists>e. extractContent outcome = Inl e)
        \<or> (\<exists>r. extractContent outcome = Inr (JsonValue r)
                \<and> (\<not> success r \<or> (\<not> hasFormulas r \<and> \<not> hasLatex r)))
       \<longrightarrow> ocrResults s' = ocrResults s
           \<and> (\<exists>info. error s' = Some info \<and> length (suggestions info) = 3
                 \<and> error_message info \<in> {''OCR Processing Error'', ''OCR Extraction Failed'',
                                              ''No Mathematical Content Detected''}))"
proof -
  let ?s0 = "s\<lparr> ocrMode := False, ocrLoading := True \<rparr>"
  have s': "s' = performOcrExtraction_resume sel containerRect nowAt timeText
                   (extractContent outcome) ?s0"
    using assms by (simp add: performOcrExtraction_def)
  have loading: "\<not> ocrLoading s'" unfolding s' by simp
  have thrown: "ocrResults s' = ocrResults s
           \<and> (\<exists>info. error s' = Some info \<and> length (suggestions info) = 3
                 \<and> error_message info \<in> {''OCR Processing Error'', ''OCR Extraction Failed'',
                                              ''No Mathematical Content Detected''})"
    if "extractContent outcome = Inl e" for e
    unfolding s' that by (simp add: resume_thrown ocr_catch_fields)
  have failed: "ocrResults s' = ocrResults s
           \<and> (\<exists>info. error s' = Some info \<and> length (suggestions info) = 3
                 \<and> error_message info \<in> {''OCR Processing Error'', ''OCR Extraction Failed'',
                                              ''No Mathematical Content Detected''})"
    if "extractContent outcome = Inr (JsonValue r)"
       "\<not> success r \<or> (\<not> hasFormulas r \<and> \<not> hasLatex r)" for r
  proof (cases "success r")
    case False
    show ?thesis unfolding s' that(1) by (simp add: resume_unsuccessful[OF False])
  next
    case True
    then have "\<not> hasFormulas r" "\<not> hasLatex r" using that(2) by simp_all
    from resume_empty[OF True this] show ?thesis unfolding s' that(1) by simp
  qed
  show ?thesis using loading thrown failed by blast
qed

theorem ocr_failure_leaves_results_witness:
  "truthy (imageData sample_selection)
   \<and> (\<exists>r. extractContent response_unsuccessful = Inr (JsonValue r) \<and> \<not> success r)
   \<and> \<not> ocrLoading (performOcrExtraction sample_selection None sample_clock ''10:15:00''
          response_unsuccessful initial_ocr_state)
   \<and> ocrResults (performOcrExtraction sample_selection None sample_clock ''10:15:00''
          response_unsuccessful initial_ocr_state) = ocrResults initial_ocr_state
   \<and> (\<exists>info. error (performOcrExtraction sample_selection None sample_clock ''10:15:00''
          response_unsuccessful initial_ocr_state) = Some info \<and> length (suggestions info) = 3)"
proof -
  have h: "truthy (imageData sample_selection)"
    by (simp add: sample_selection_def truthy_def)
  have f: "\<exists>r. extractContent response_unsuccessful = Inr (JsonValue r) \<and> \<not> success r"
    by (simp add: extractContent_def response_unsuccessful_def)
  note T = ocr_failure_leaves_results[OF h refl, of None sample_clock "''10:15:00''"
             response_unsuccessful initial_ocr_state]
  show ?thesis using T h f by blast
qed

text \<open>
  Claim C8 says that a successful extraction with \<open>n \<ge> 1\<close> formulas appends \<open>n\<close> results and
  opens the panel. \<open>performOcrExtraction\<close> accepts formulas that are objects with a \<open>latex\<close>
  property, but when the first formula is such an object, the log entry written before the
  results are built calls \<open>substring\<close> on it and throws: nothing is appended, the panel
  stays closed and the error "OCR Processing Error" is shown.
\<close>

theorem object_formula_not_appended:
  "ocrResults (performOcrExtraction sample_selection None sample_clock ''10:15:00''
       response_object_formula initial_ocr_state) = []
   \<and> error (performOcrExtraction sample_selection None sample_clock ''10:15:00''
       response_object_formula initial_ocr_state)
      = Some \<lparr> error_message = ''OCR Processing Error'',
               suggestions = [''formulasArray[0]?.substring is not a function'',
                              ''Check that the backend is running'',
                              ''Try again with a different selection''] \<rparr>
   \<and> \<not> showOcrPanel (performOcrExtraction sample_selection None sample_clock ''10:15:00''
       response_object_formula initial_ocr_state)
   \<and> \<not> ocrLoading (performOcrExtraction sample_selection None sample_clock ''10:15:00''
       response_object_formula initial_ocr_state)"
proof -
  let ?r = "\<lparr> success = True, response_error = None,
       formulas = Some [FormulaObject (Some ''x^2'') (Some (9/10)) (Some ''inline'')],
       latex = None, confidence = Some (9/10), raw_result = None \<rparr>"
  let ?s0 = "initial_ocr_state\<lparr> ocrMode := False, ocrLoading := True \<rparr>"
  have e: "extractContent response_object_formula = Inr (JsonValue ?r)"
    by (simp add: extractContent_def response_object_formula_def)
  have run: "performOcrExtraction sample_selection None sample_clock ''10:15:00''
       response_object_formula initial_ocr_state
     = performOcrExtraction_resume sample_selection None sample_clock ''10:15:00''
         (Inr (JsonValue ?r)) ?s0"
    by (simp add: performOcrExtraction_def e sample_selection_def truthy_def)
  have a: "success ?r" "hasFormulas ?r \<or> hasLatex ?r"
    "formulasArray ?r = FormulaObject (Some ''x^2'') (Some (9/10)) (Some ''inline'') # []"
    by (simp_all add: hasFormulas_def formulasArray_def)
  note R = resume_object_first[OF a, of sample_selection None sample_clock "''10:15:00''" ?s0]
  show ?thesis unfolding run using R
    by (simp add: ocr_catch_fields initial_ocr_state_def)
qed

end
